theory Spec2Isabelle
  imports
    Complex_Main
    "HOL-Library.Multiset"
    "HOL-Library.Char_ord"
    "HOL-Library.Option_ord"
    "HOL-Library.Log_Nat"
    "HOL-Library.Word"
    "HOL-Library.List_Lexorder"
    "HOL-Library.Product_Lexorder"
begin

section \<open>CitizenVote: voter ingestion, duplicate review and aggregation\<close>

text \<open>
  The repository holds two Express servers over one SQLite database. The file whose
  header reads \<^verbatim>\<open>server/app.js\<close> has no authentication; its handlers carry the
  suffix \<open>_app\<close> here. The other server puts \<^verbatim>\<open>authRequired, adminOnly\<close> in front
  of its mutating routes and wraps every handler in \<^verbatim>\<open>try/catch\<close>; its handlers
  carry the suffix \<open>_srv\<close>. A handler is modelled as a function from the store (and
  the request) to the new store and the reply; the middleware in front of a route is
  not part of the handler.
\<close>

subsection \<open>JavaScript values of a request\<close>

text \<open>
  A value of a JSON body is \<^verbatim>\<open>undefined\<close> (the field is missing), \<^verbatim>\<open>null\<close>, a
  boolean, a number or a string; arrays and objects are outside the model. \<open>JNum\<close> holds
  a whole number of the 32-bit range, read with \<open>sint\<close>: these are the numbers that
  print as their decimal digits and that the driver binds as integers. JSON numbers
  with a fraction or beyond that range are outside the model.

  \<open>jsnum\<close> is the result of unary plus, \<^verbatim>\<open>+x\<close>: \<open>NaN\<close> or a whole number. An
  input that unary plus turns into a fraction or an infinity is outside the model.
\<close>

datatype jsnum = NaN | Num int

datatype jsval = JUndefined | JNull | JBool bool | JNum "32 word" | JStr string

text \<open>Truthiness, as \<^verbatim>\<open>!x\<close>, \<^verbatim>\<open>x || y\<close> and \<^verbatim>\<open>if (x)\<close> read it.\<close>

fun num_truthy :: "jsnum \<Rightarrow> bool" where
  "num_truthy NaN = False"
| "num_truthy (Num n) = (n \<noteq> 0)"

fun truthy :: "jsval \<Rightarrow> bool" where
  "truthy JUndefined = False"
| "truthy JNull = False"
| "truthy (JBool b) = b"
| "truthy (JNum n) = (n \<noteq> 0)"
| "truthy (JStr s) = (s \<noteq> [])"

text \<open>
  Unary plus, \<^verbatim>\<open>+x\<close>. The conversion of a string to a number is the runtime's
  (\<open>StringToNumber\<close>); the handlers take it as the parameter \<open>s2n\<close>.
\<close>

fun to_number :: "(string \<Rightarrow> jsnum) \<Rightarrow> jsval \<Rightarrow> jsnum" where
  "to_number s2n JUndefined = NaN"
| "to_number s2n JNull = Num 0"
| "to_number s2n (JBool b) = Num (if b then 1 else 0)"
| "to_number s2n (JNum n) = Num (sint n)"
| "to_number s2n (JStr s) = s2n s"

text \<open>\<^verbatim>\<open>x || 0\<close> on a number, as the value bound to the statement.\<close>

definition or_zero :: "jsnum \<Rightarrow> int" where
  "or_zero x = (case x of NaN \<Rightarrow> 0 | Num n \<Rightarrow> (if n \<noteq> 0 then n else 0))"

subsection \<open>Numbers of binary64\<close>

text \<open>
  A JavaScript number and an SQLite \<^verbatim>\<open>REAL\<close> are binary64 values, and an arithmetic
  operation on them gives the binary64 value nearest to the exact result, ties going
  to the even mantissa. For positive \<open>p\<close> and \<open>q\<close>, \<open>ilog2 p q\<close> is the whole part of
  the binary logarithm of \<open>p / q\<close>, and \<open>round_div p q\<close> is \<open>p / q\<close> rounded to the
  nearest whole number, ties to even.
\<close>

definition ilog2 :: "int \<Rightarrow> int \<Rightarrow> int" where
  "ilog2 p q =
     (let k = bitlen p - bitlen q
      in if (if 0 \<le> k then q * 2 ^ nat k \<le> p else q \<le> p * 2 ^ nat (- k)) then k else k - 1)"

definition round_div :: "int \<Rightarrow> int \<Rightarrow> int" where
  "round_div p q =
     (let f = p div q; r = p mod q
      in if 2 * r < q then f else if q < 2 * r then f + 1 else if even f then f else f + 1)"

text \<open>
  \<open>b64 p q\<close> is the binary64 value nearest to \<open>p / q\<close>, for \<open>0 \<le> p\<close> and \<open>0 < q\<close>,
  as a mantissa \<open>m\<close> of at most 53 bits and an exponent \<open>e\<close> of at least -1074: the
  value is \<open>m * 2 ^ e\<close>. It is \<open>None\<close> where the rounded value leaves the range, which
  is where the operation gives \<^verbatim>\<open>Infinity\<close>.
\<close>

definition b64 :: "int \<Rightarrow> int \<Rightarrow> (int \<times> int) option" where
  "b64 p q =
     (if p = 0 then Some (0, 0)
      else
        (let e = max (ilog2 p q - 52) (- 1074);
             m = (if 0 \<le> e then round_div p (q * 2 ^ nat e) else round_div (p * 2 ^ nat (- e)) q)
         in if 971 \<le> e \<and> 2 ^ 1024 \<le> m * 2 ^ nat e then None else Some (m, e)))"

definition pow2 :: "int \<Rightarrow> rat" where
  "pow2 k = (if 0 \<le> k then 2 ^ nat k else 1 / 2 ^ nat (- k))"

text \<open>
  The binary64 value nearest to a whole number \<open>n\<close> that is not negative. It is a whole
  number again, and \<open>n\<close> itself below \<open>2 ^ 53\<close>.
\<close>

definition b64_int :: "int \<Rightarrow> int option" where
  "b64_int n =
     (case b64 n 1 of
        None \<Rightarrow> None
      | Some (m, e) \<Rightarrow> Some (if 0 \<le> e then m * 2 ^ nat e else m div 2 ^ nat (- e)))"

text \<open>
  The numbers that \<^verbatim>\<open>parseInt\<close>, \<^verbatim>\<open>Math.max\<close>, \<^verbatim>\<open>Math.min\<close> and the arithmetic on
  their results give: \<open>NaN\<close>, a whole number, or an infinity. \<open>dbl n\<close> is the number
  that the exact whole result \<open>n\<close> of an operation is rounded to.
\<close>

datatype num64 = NotANumber | Finite int | PosInf | NegInf

definition dbl :: "int \<Rightarrow> num64" where
  "dbl n =
     (case b64_int \<bar>n\<bar> of
        None \<Rightarrow> (if n < 0 then NegInf else PosInf)
      | Some v \<Rightarrow> Finite (if n < 0 then - v else v))"

text \<open>\<^verbatim>\<open>x || 0\<close> on such a number: \<open>NaN\<close> and 0 are falsy.\<close>

definition num_or_zero :: "num64 \<Rightarrow> num64" where
  "num_or_zero x = (case x of NotANumber \<Rightarrow> Finite 0 | _ \<Rightarrow> x)"

text \<open>\<^verbatim>\<open>Math.max\<close> and \<^verbatim>\<open>Math.min\<close> of two numbers: \<open>NaN\<close> if either is.\<close>

fun js_max :: "num64 \<Rightarrow> num64 \<Rightarrow> num64" where
  "js_max NotANumber y = NotANumber"
| "js_max x NotANumber = NotANumber"
| "js_max PosInf y = PosInf"
| "js_max x PosInf = PosInf"
| "js_max NegInf y = y"
| "js_max x NegInf = x"
| "js_max (Finite a) (Finite b) = Finite (max a b)"

fun js_min :: "num64 \<Rightarrow> num64 \<Rightarrow> num64" where
  "js_min NotANumber y = NotANumber"
| "js_min x NotANumber = NotANumber"
| "js_min NegInf y = NegInf"
| "js_min x NegInf = NegInf"
| "js_min PosInf y = y"
| "js_min x PosInf = x"
| "js_min (Finite a) (Finite b) = Finite (min a b)"

text \<open>
  \<^verbatim>\<open>x - y\<close> and \<^verbatim>\<open>x * y\<close>. \<open>sign64\<close> is the sign of a number that is not \<open>NaN\<close>.
\<close>

fun sign64 :: "num64 \<Rightarrow> int" where
  "sign64 (Finite a) = sgn a"
| "sign64 PosInf = 1"
| "sign64 NegInf = - 1"
| "sign64 NotANumber = 0"

fun js_sub :: "num64 \<Rightarrow> num64 \<Rightarrow> num64" where
  "js_sub NotANumber y = NotANumber"
| "js_sub x NotANumber = NotANumber"
| "js_sub (Finite a) (Finite b) = dbl (a - b)"
| "js_sub PosInf PosInf = NotANumber"
| "js_sub NegInf NegInf = NotANumber"
| "js_sub PosInf y = PosInf"
| "js_sub NegInf y = NegInf"
| "js_sub x PosInf = NegInf"
| "js_sub x NegInf = PosInf"

fun js_mul :: "num64 \<Rightarrow> num64 \<Rightarrow> num64" where
  "js_mul NotANumber y = NotANumber"
| "js_mul x NotANumber = NotANumber"
| "js_mul (Finite a) (Finite b) = dbl (a * b)"
| "js_mul x y =
     (if sign64 x * sign64 y = 0 then NotANumber
      else if 0 < sign64 x * sign64 y then PosInf else NegInf)"

subsection \<open>\<^verbatim>\<open>parseInt\<close>\<close>

text \<open>
  \<^verbatim>\<open>parseInt(s, 10)\<close> on a string: leading white space is skipped, one sign is
  read, then the longest run of decimal digits; no digit gives \<open>NaN\<close>. The result is
  the binary64 value nearest to the number the digits denote, so a run beyond the
  range gives an infinity. Strings are ASCII here.
\<close>

definition is_ws :: "char \<Rightarrow> bool" where
  "is_ws c = (of_char c \<in> {9::nat, 10, 11, 12, 13, 32})"

definition is_digit :: "char \<Rightarrow> bool" where
  "is_digit c = (48 \<le> (of_char c :: nat) \<and> (of_char c :: nat) \<le> 57)"

definition digit_val :: "char \<Rightarrow> int" where
  "digit_val c = int (of_char c) - 48"

definition digits_val :: "string \<Rightarrow> int" where
  "digits_val z = foldl (\<lambda>a c. 10 * a + digit_val c) 0 z"

definition parseInt10 :: "string \<Rightarrow> num64" where
  "parseInt10 s =
     (let t = dropWhile is_ws s;
          neg = (case t of c # _ \<Rightarrow> c = CHR ''-'' | [] \<Rightarrow> False);
          u = (case t of c # r \<Rightarrow> if c = CHR ''-'' \<or> c = CHR ''+'' then r else t | [] \<Rightarrow> t);
          z = takeWhile is_digit u
      in if z = [] then NotANumber
         else (case b64_int (digits_val z) of
                 None \<Rightarrow> (if neg then NegInf else PosInf)
               | Some v \<Rightarrow> Finite (if neg then - v else v)))"

text \<open>
  \<^verbatim>\<open>parseInt(v, 10)\<close> on a value: the value is first turned into a string. A whole
  number of the 32-bit range prints as its decimal digits, with a sign if it is
  negative, which parse back to it; \<^verbatim>\<open>true\<close>, \<^verbatim>\<open>false\<close>, \<^verbatim>\<open>null\<close> and
  \<^verbatim>\<open>undefined\<close> print as words with no digit.
\<close>

fun parseInt_val :: "jsval \<Rightarrow> num64" where
  "parseInt_val (JNum n) = Finite (sint n)"
| "parseInt_val (JStr s) = parseInt10 s"
| "parseInt_val _ = NotANumber"

text \<open>
  A field of a JSON body that the handler hands to the store as it is has the type of
  the column it is written to: it is absent (\<^verbatim>\<open>undefined\<close>), \<^verbatim>\<open>null\<close>, or a
  value. \<open>int_or_null\<close> and \<open>str_or_null\<close> are \<^verbatim>\<open>x || null\<close>; \<^verbatim>\<open>!x\<close> holds
  exactly when they give \<open>None\<close>.
\<close>

datatype 'a field = Absent | Null | Val 'a

fun int_or_null :: "int field \<Rightarrow> int option" where
  "int_or_null (Val n) = (if n \<noteq> 0 then Some n else None)"
| "int_or_null _ = None"

fun str_or_null :: "string field \<Rightarrow> string option" where
  "str_or_null (Val s) = (if s \<noteq> [] then Some s else None)"
| "str_or_null _ = None"

subsection \<open>Replies\<close>

text \<open>
  \<open>Json p\<close> is \<^verbatim>\<open>res.json({ok: true, ...p})\<close>, status 200; \<open>Err c m\<close> is
  \<^verbatim>\<open>res.status(c).json({ok: false, msg: m})\<close>.
\<close>

datatype 'a reply = Json 'a | Err nat string

fun status :: "'a reply \<Rightarrow> nat" where
  "status (Json p) = 200"
| "status (Err c m) = c"

fun ok :: "'a reply \<Rightarrow> bool" where
  "ok (Json p) = True"
| "ok (Err c m) = False"

text \<open>
  A call of the store either succeeds or fails with a message (\<^verbatim>\<open>err.message\<close>).
  Whether it fails is the environment's choice: each handler takes one \<open>fault\<close> per
  store call it can make, \<open>None\<close> when the call succeeds.
\<close>

type_synonym fault = "string option"

subsection \<open>The store\<close>

text \<open>
  Tables are lists of rows in rowid order. Columns declared \<^verbatim>\<open>NOT NULL\<close> by
  \<^verbatim>\<open>ensureSchema\<close> have a plain type, nullable columns an option type. The columns
  \<^verbatim>\<open>official_voters\<close> and \<^verbatim>\<open>governorate_id\<close> of \<^verbatim>\<open>districts\<close> and the party's
  name and dates are read and written by \<^verbatim>\<open>server/app.js\<close> only. The threshold
  of the party is the number the handler binds, which can be \<^verbatim>\<open>Infinity\<close>.
\<close>

record party =
  p_name :: string
  p_threshold :: num64
  p_start_date :: "string option"
  p_end_date :: "string option"

record district =
  d_id :: int
  d_governorate_id :: "int option"
  d_name :: string
  d_official_voters :: int

record candidate =
  c_id :: int
  c_name :: string
  c_district_id :: "int option"
  c_target :: int

record assistant =
  a_id :: int
  a_candidate_id :: int
  a_name :: string
  a_phone :: "string option"
  a_area_tags :: "string option"
  a_created_at :: string

record voter =
  v_id :: int
  v_candidate_id :: int
  v_assistant_id :: "int option"
  v_full_name :: string
  v_dob :: "string option"
  v_district_id :: "int option"
  v_polling_center :: "string option"
  v_electoral_card :: "string option"
  v_created_at :: string

text \<open>
  \<open>party_row\<close> is the row of \<^verbatim>\<open>party\<close> with id 1, if there is one. The \<open>seq_\<close>
  fields are the \<^verbatim>\<open>AUTOINCREMENT\<close> counters: the largest rowid the table ever held.
\<close>

record db =
  party_row :: "party option"
  districts :: "district list"
  candidates :: "candidate list"
  assistants :: "assistant list"
  voters :: "voter list"
  seq_districts :: int
  seq_candidates :: int
  seq_voters :: int

text \<open>The rowid of an inserted row: one more than every rowid the table has held.\<close>

definition fresh_id :: "int \<Rightarrow> int list \<Rightarrow> int" where
  "fresh_id s ids = fold max ids s + 1"

subsection \<open>Voter ingestion: \<^verbatim>\<open>POST /api/voters\<close>\<close>

record voter_body =
  b_candidate_id :: "int field"
  b_assistant_id :: "int field"
  b_full_name :: "string field"
  b_dob :: "string field"
  b_district_id :: "int field"
  b_polling_center :: "string field"
  b_electoral_card :: "string field"
  b_aid :: jsval

text \<open>
  \<open>Created i\<close> is \<^verbatim>\<open>{ok: true, id: i}\<close>; \<open>Duplicate\<close> is
  \<^verbatim>\<open>{ok: true, duplicate: true, msg: 'Duplicate electoral card'}\<close>.
\<close>

datatype ingest = Created int | Duplicate

text \<open>\<^verbatim>\<open>SELECT id FROM voters WHERE electoral_card = ?\<close>, read with \<^verbatim>\<open>get\<close>.\<close>

definition sel_card :: "db \<Rightarrow> string \<Rightarrow> int option" where
  "sel_card s ec =
     map_option v_id (find (\<lambda>v. v_electoral_card v = Some ec) (voters s))"

text \<open>
  \<^verbatim>\<open>INSERT INTO voters(candidate_id, assistant_id, full_name, dob, district_id,
  polling_center, electoral_card) VALUES (?,?,?,?,?,?,?)\<close>; \<open>now\<close> is the
  \<^verbatim>\<open>CURRENT_TIMESTAMP\<close> default of \<^verbatim>\<open>created_at\<close>. The result is the new store and
  \<^verbatim>\<open>lastID\<close>.
\<close>

definition new_voter ::
  "string \<Rightarrow> db \<Rightarrow> int \<Rightarrow> int option \<Rightarrow> string \<Rightarrow> string option \<Rightarrow> int option \<Rightarrow>
   string option \<Rightarrow> string option \<Rightarrow> voter" where
  "new_voter now s cid aid name dob did pc ec =
     \<lparr>v_id = fresh_id (seq_voters s) (map v_id (voters s)), v_candidate_id = cid,
       v_assistant_id = aid, v_full_name = name, v_dob = dob, v_district_id = did,
       v_polling_center = pc, v_electoral_card = ec, v_created_at = now\<rparr>"

definition insert_voter ::
  "string \<Rightarrow> db \<Rightarrow> int \<Rightarrow> int option \<Rightarrow> string \<Rightarrow> string option \<Rightarrow> int option \<Rightarrow>
   string option \<Rightarrow> string option \<Rightarrow> db \<times> int" where
  "insert_voter now s cid aid name dob did pc ec =
     (let r = new_voter now s cid aid name dob did pc ec in
      (s\<lparr>voters := voters s @ [r], seq_voters := v_id r\<rparr>, v_id r))"

text \<open>
  The handler of the authenticated server. \<open>f_dupe\<close> is the fault of the duplicate
  lookup, \<open>f_ins\<close> that of the insert; either is caught and answered with 500.
\<close>

definition insert_reply ::
  "fault \<Rightarrow> string \<Rightarrow> db \<Rightarrow> int \<Rightarrow> int option \<Rightarrow> string \<Rightarrow> voter_body \<Rightarrow> db \<times> ingest reply" where
  "insert_reply f_ins now s cid aid name b =
     (case f_ins of
        Some m \<Rightarrow> (s, Err 500 m)
      | None \<Rightarrow>
          (let (s', i) = insert_voter now s cid aid name (str_or_null (b_dob b))
                           (int_or_null (b_district_id b)) (str_or_null (b_polling_center b))
                           (str_or_null (b_electoral_card b))
           in (s', Json (Created i))))"

definition post_voters_srv ::
  "fault \<Rightarrow> fault \<Rightarrow> string \<Rightarrow> db \<Rightarrow> voter_body \<Rightarrow> db \<times> ingest reply" where
  "post_voters_srv f_dupe f_ins now s b =
     (case (int_or_null (b_candidate_id b), str_or_null (b_full_name b)) of
        (Some cid, Some name) \<Rightarrow>
          (case str_or_null (b_electoral_card b) of
             Some ec \<Rightarrow>
               (case f_dupe of
                  Some m \<Rightarrow> (s, Err 500 m)
                | None \<Rightarrow>
                    (case sel_card s ec of
                       Some d \<Rightarrow> (s, Json Duplicate)
                     | None \<Rightarrow>
                         insert_reply f_ins now s cid (int_or_null (b_assistant_id b)) name b))
           | None \<Rightarrow> insert_reply f_ins now s cid (int_or_null (b_assistant_id b)) name b)
      | _ \<Rightarrow> (s, Err 400 ''candidate_id & full_name required''))"

text \<open>
  The handler of \<^verbatim>\<open>server/app.js\<close>. It first takes the assistant from the
  short-link parameter: \<^verbatim>\<open>if (!assistant_id && aid) assistant_id = +aid\<close>.
\<close>

definition assistant_app :: "(string \<Rightarrow> jsnum) \<Rightarrow> voter_body \<Rightarrow> int option" where
  "assistant_app s2n b =
     (if int_or_null (b_assistant_id b) = None \<and> truthy (b_aid b)
      then (case to_number s2n (b_aid b) of
              NaN \<Rightarrow> None
            | Num n \<Rightarrow> (if n \<noteq> 0 then Some n else None))
      else int_or_null (b_assistant_id b))"

definition post_voters_app ::
  "(string \<Rightarrow> jsnum) \<Rightarrow> fault \<Rightarrow> fault \<Rightarrow> string \<Rightarrow> db \<Rightarrow> voter_body \<Rightarrow> db \<times> ingest reply" where
  "post_voters_app s2n f_dupe f_ins now s b =
     (case (int_or_null (b_candidate_id b), str_or_null (b_full_name b)) of
        (Some cid, Some name) \<Rightarrow>
          (case str_or_null (b_electoral_card b) of
             Some ec \<Rightarrow>
               (case f_dupe of
                  Some m \<Rightarrow> (s, Err 500 m)
                | None \<Rightarrow>
                    (case sel_card s ec of
                       Some d \<Rightarrow> (s, Json Duplicate)
                     | None \<Rightarrow> insert_reply f_ins now s cid (assistant_app s2n b) name b))
           | None \<Rightarrow> insert_reply f_ins now s cid (assistant_app s2n b) name b)
      | _ \<Rightarrow> (s, Err 400 ''candidate_id & full_name required''))"

text \<open>The row an ingestion call appends when nothing stops it.\<close>

definition ingested :: "string \<Rightarrow> db \<Rightarrow> int \<Rightarrow> int option \<Rightarrow> string \<Rightarrow> voter_body \<Rightarrow> voter" where
  "ingested now s cid aid name b =
     new_voter now s cid aid name (str_or_null (b_dob b)) (int_or_null (b_district_id b))
       (str_or_null (b_polling_center b)) (str_or_null (b_electoral_card b))"

subsection \<open>Relational operators\<close>

text \<open>
  \<^verbatim>\<open>xs LEFT JOIN ys ON on\<close>: every row of \<open>xs\<close> with each matching row of \<open>ys\<close>,
  or once with \<^verbatim>\<open>NULL\<close>s when none matches.
\<close>

definition left_join :: "'a list \<Rightarrow> 'b list \<Rightarrow> ('a \<Rightarrow> 'b \<Rightarrow> bool) \<Rightarrow> ('a \<times> 'b option) list" where
  "left_join xs ys on =
     concat (map (\<lambda>x. case filter (on x) ys of
                         [] \<Rightarrow> [(x, None)]
                       | m # ms \<Rightarrow> map (\<lambda>y. (x, Some y)) (m # ms)) xs)"

text \<open>
  \<^verbatim>\<open>GROUP BY key\<close>: one group per key value, holding the rows with that key.
  SQLite forms the groups from the rows in the order of the key, so the groups come in
  ascending key order (\<^verbatim>\<open>NULL\<close> first); the rows of a group keep their order.
\<close>

definition group_by :: "('r \<Rightarrow> 'k::linorder) \<Rightarrow> 'r list \<Rightarrow> ('k \<times> 'r list) list" where
  "group_by key rows =
     map (\<lambda>k. (k, filter (\<lambda>r. key r = k) rows)) (sort (remdups (map key rows)))"

text \<open>\<^verbatim>\<open>COUNT(col)\<close> over a group: the rows whose \<open>col\<close> is not \<^verbatim>\<open>NULL\<close>.\<close>

definition count_col :: "('r \<Rightarrow> 'c option) \<Rightarrow> 'r list \<Rightarrow> nat" where
  "count_col col g = length (filter (\<lambda>r. col r \<noteq> None) g)"

text \<open>
  \<^verbatim>\<open>ORDER BY\<close> is a stable sort of the rows in the order the query produced them:
  \<open>sort_key\<close> for an ascending key (a descending number is sorted by its negation),
  \<open>sort_desc\<close> for a descending key of any type.
\<close>

definition sort_desc :: "('a \<Rightarrow> 'k::linorder) \<Rightarrow> 'a list \<Rightarrow> 'a list" where
  "sort_desc key xs = rev (sort_key key (rev xs))"

text \<open>
  \<^verbatim>\<open>ROUND(x, 1)\<close> prints the value of \<open>x\<close> with one digit after the point, halves
  away from zero; the result is given as the decimal that is printed.
\<close>

definition sql_round1 :: "rat \<Rightarrow> rat" where
  "sql_round1 x = (if 0 \<le> x then of_int \<lfloor>x * 10 + 1 / 2\<rfloor> / 10
                   else - (of_int \<lfloor>- x * 10 + 1 / 2\<rfloor> / 10))"

text \<open>
  \<^verbatim>\<open>100.0 * n / t\<close> for a count \<open>n\<close> and a positive whole \<open>t\<close>: \<open>n\<close> and \<open>t\<close> are
  converted to \<^verbatim>\<open>REAL\<close>, and the product and the quotient are rounded to binary64
  each. \<open>to_real\<close> is the conversion. SQLite's integers have 64 bits, far from the end
  of the binary64 range; a number beyond that range is left unrounded here.
\<close>

definition to_real :: "int \<Rightarrow> int" where
  "to_real n = (case b64_int n of Some v \<Rightarrow> v | None \<Rightarrow> n)"

definition quot100 :: "nat \<Rightarrow> int \<Rightarrow> rat" where
  "quot100 n t =
     (let a = to_real (100 * to_real (int n)); c = to_real t
      in case b64 a c of
           Some (m, e) \<Rightarrow> of_int m * pow2 e
         | None \<Rightarrow> of_int a / of_int c)"

text \<open>
  A route parameter \<^verbatim>\<open>+req.params.id\<close> is a number or \<open>NaN\<close>. \<open>NaN\<close> is bound as
  \<^verbatim>\<open>NULL\<close>, and \<^verbatim>\<open>id = NULL\<close> holds for no row.
\<close>

fun id_is :: "jsnum \<Rightarrow> int \<Rightarrow> bool" where
  "id_is NaN k = False"
| "id_is (Num n) k = (k = n)"

subsection \<open>Candidate progress list: \<^verbatim>\<open>GET /api/candidates\<close>\<close>

record progress =
  pr_id :: int
  pr_name :: string
  pr_district :: "string option"
  pr_target :: int
  pr_supporters :: nat
  pr_pct :: rat

text \<open>
  \<^verbatim>\<open>ROUND(CASE WHEN c.target>0 THEN (100.0*COUNT(v.id)/c.target) ELSE 0 END,1)\<close>
\<close>

definition pct :: "int \<Rightarrow> nat \<Rightarrow> rat" where
  "pct target n = sql_round1 (if target > 0 then quot100 n target else 0)"

text \<open>
  \<^verbatim>\<open>FROM candidates c LEFT JOIN districts d ON d.id = c.district_id
  LEFT JOIN voters v ON v.candidate_id = c.id\<close>
\<close>

definition candidates_join :: "db \<Rightarrow> ((candidate \<times> district option) \<times> voter option) list" where
  "candidates_join s =
     left_join
       (left_join (candidates s) (districts s) (\<lambda>c d. Some (d_id d) = c_district_id c))
       (voters s) (\<lambda>(c, d) v. v_candidate_id v = c_id c)"

text \<open>
  The selected columns of one group. The columns that are not aggregates are read from
  a row of the group (here its first).
\<close>

definition progress_row :: "((candidate \<times> district option) \<times> voter option) list \<Rightarrow> progress option" where
  "progress_row g =
     (case g of
        [] \<Rightarrow> None
      | ((c, d), v) # _ \<Rightarrow>
          Some \<lparr>pr_id = c_id c, pr_name = c_name c, pr_district = map_option d_name d,
                pr_target = c_target c,
                pr_supporters = count_col (\<lambda>(cd, v). map_option v_id v) g,
                pr_pct = pct (c_target c) (count_col (\<lambda>(cd, v). map_option v_id v) g)\<rparr>)"

text \<open>\<^verbatim>\<open>GROUP BY c.id ORDER BY supporters DESC, c.id ASC\<close>\<close>

definition candidates_progress :: "db \<Rightarrow> progress list" where
  "candidates_progress s =
     sort_key (\<lambda>r. (- int (pr_supporters r), pr_id r))
       (List.map_filter progress_row
          (map snd (group_by (\<lambda>((c, d), v). c_id c) (candidates_join s))))"

definition get_candidates_srv :: "fault \<Rightarrow> db \<Rightarrow> progress list reply" where
  "get_candidates_srv f s =
     (case f of Some m \<Rightarrow> Err 500 m | None \<Rightarrow> Json (candidates_progress s))"

text \<open>
  The handler of \<^verbatim>\<open>server/app.js\<close> reads
  \<^verbatim>\<open>SELECT * FROM vw_candidate_progress ORDER BY supporters DESC\<close>. The view is
  defined in the database file, which is not among the sources; its rows are the
  parameter \<open>vw\<close>.
\<close>

definition get_candidates_app :: "fault \<Rightarrow> progress list \<Rightarrow> progress list reply" where
  "get_candidates_app f vw =
     (case f of
        Some m \<Rightarrow> Err 500 m
      | None \<Rightarrow> Json (sort_key (\<lambda>r. - int (pr_supporters r)) vw))"


text \<open>
  The row of the list for a candidate, described from the tables: its supporters are
  the voter rows that reference it, its percentage is the binary64 quotient
  \<open>100 * supporters / target\<close> printed with one digit after the point for a positive
  target and 0 otherwise, its district label is the name of the district it
  references, if that district exists.
\<close>

definition spec_progress :: "db \<Rightarrow> candidate \<Rightarrow> progress" where
  "spec_progress s c =
     (let n = length (filter (\<lambda>v. v_candidate_id v = c_id c) (voters s)) in
      \<lparr>pr_id = c_id c, pr_name = c_name c,
        pr_district = map_option d_name (find (\<lambda>d. Some (d_id d) = c_district_id c) (districts s)),
        pr_target = c_target c, pr_supporters = n,
        pr_pct = (if c_target c > 0 then sql_round1 (quot100 n (c_target c)) else 0)\<rparr>)"


text \<open>The joined rows of one candidate, as the second join produces them.\<close>

definition cand_block ::
  "db \<Rightarrow> candidate \<times> district option \<Rightarrow> ((candidate \<times> district option) \<times> voter option) list" where
  "cand_block s x =
     (case filter (\<lambda>v. v_candidate_id v = c_id (fst x)) (voters s) of
        [] \<Rightarrow> [(x, None)]
      | m # ms \<Rightarrow> map (\<lambda>y. (x, Some y)) (m # ms))"

subsection \<open>Deleting a district: \<^verbatim>\<open>DELETE /api/districts/:id\<close>\<close>

text \<open>
  \<^verbatim>\<open>DELETE FROM districts WHERE id = ?\<close>, answered with the number of rows deleted.
  No statement of either server switches SQLite's foreign keys on, so no other table
  is looked at.
\<close>

definition delete_districts_app :: "fault \<Rightarrow> db \<Rightarrow> jsnum \<Rightarrow> db \<times> nat reply" where
  "delete_districts_app f s i =
     (case f of
        Some m \<Rightarrow> (s, Err 500 m)
      | None \<Rightarrow>
          (s\<lparr>districts := filter (\<lambda>d. \<not> id_is i (d_id d)) (districts s)\<rparr>,
           Json (length (filter (\<lambda>d. id_is i (d_id d)) (districts s)))))"


subsection \<open>Duplicate review: \<^verbatim>\<open>GET /api/fuzzy-duplicates\<close>\<close>

text \<open>An integer as SQLite prints it into a text: decimal digits, with a sign if negative.\<close>

fun show_nat :: "nat \<Rightarrow> string" where
  "show_nat n =
     (if n < 10 then [char_of (48 + n)]
      else show_nat (n div 10) @ [char_of (48 + n mod 10)])"

declare show_nat.simps [simp del]

definition show_int :: "int \<Rightarrow> string" where
  "show_int i = (if i < 0 then CHR ''-'' # show_nat (nat (- i)) else show_nat (nat i))"

fun join_comma :: "string list \<Rightarrow> string" where
  "join_comma [] = []"
| "join_comma [x] = x"
| "join_comma (x # y # ys) = x @ '','' @ join_comma (y # ys)"

text \<open>
  \<^verbatim>\<open>GROUP_CONCAT(v1.candidate_id)\<close>: the candidate id of every row of the group,
  joined by commas. The ids are listed in the order of the rows, which SQLite leaves
  open.
\<close>

definition group_concat :: "int list \<Rightarrow> string" where
  "group_concat ids = join_comma (map show_int ids)"

record dup_row =
  fd_full_name :: string
  fd_dob :: "string option"
  fd_cnt :: nat
  fd_candidate_ids :: string

definition dup_of_group :: "(string \<times> string option) \<times> voter list \<Rightarrow> dup_row" where
  "dup_of_group kg =
     \<lparr>fd_full_name = fst (fst kg), fd_dob = snd (fst kg), fd_cnt = length (snd kg),
       fd_candidate_ids = group_concat (map v_candidate_id (snd kg))\<rparr>"

text \<open>
  \<^verbatim>\<open>SELECT v1.full_name, v1.dob, COUNT(*) AS cnt, GROUP_CONCAT(v1.candidate_id) AS candidate_ids
  FROM voters v1 WHERE v1.full_name <> '' AND v1.dob IS NOT NULL
  GROUP BY v1.full_name, v1.dob HAVING COUNT(*) > 1 ORDER BY cnt DESC, full_name\<close>
\<close>

definition fuzzy_duplicates :: "db \<Rightarrow> dup_row list" where
  "fuzzy_duplicates s =
     sort_key (\<lambda>r. (- int (fd_cnt r), fd_full_name r))
       (map dup_of_group
          (filter (\<lambda>kg. 1 < length (snd kg))
             (group_by (\<lambda>v. (v_full_name v, v_dob v))
                (filter (\<lambda>v. v_full_name v \<noteq> [] \<and> v_dob v \<noteq> None) (voters s)))))"

definition get_fuzzy_duplicates_app :: "fault \<Rightarrow> db \<Rightarrow> dup_row list reply" where
  "get_fuzzy_duplicates_app f s =
     (case f of Some m \<Rightarrow> Err 500 m | None \<Rightarrow> Json (fuzzy_duplicates s))"

text \<open>The voter rows with a given name and date of birth, in the order of the table.\<close>

definition same_person :: "db \<Rightarrow> string \<Rightarrow> string \<Rightarrow> voter list" where
  "same_person s n d = filter (\<lambda>v. v_full_name v = n \<and> v_dob v = Some d) (voters s)"


text \<open>
  The row the duplicate review gives for a name and a date of birth: the number of
  voter rows with both, and the candidate id of each of them.
\<close>

definition dup_spec :: "db \<Rightarrow> string \<Rightarrow> string \<Rightarrow> dup_row" where
  "dup_spec s n d =
     \<lparr>fd_full_name = n, fd_dob = Some d, fd_cnt = length (same_person s n d),
       fd_candidate_ids = group_concat (map v_candidate_id (same_person s n d))\<rparr>"


subsection \<open>District distribution: \<^verbatim>\<open>GET /api/party-districts\<close> and \<open>byDistrict\<close>\<close>

record district_row =
  dr_district_id :: int
  dr_district :: string
  dr_official_voters :: int
  dr_supporters :: nat

text \<open>
  \<^verbatim>\<open>SELECT d.id AS district_id, d.name AS district, d.official_voters,
  COUNT(v.id) AS supporters\<close> over one group.
\<close>

definition district_of_group :: "(district \<times> voter option) list \<Rightarrow> district_row option" where
  "district_of_group g =
     (case g of
        [] \<Rightarrow> None
      | (d, v) # _ \<Rightarrow>
          Some \<lparr>dr_district_id = d_id d, dr_district = d_name d,
                dr_official_voters = d_official_voters d,
                dr_supporters = count_col (\<lambda>(d, v). map_option v_id v) g\<rparr>)"

text \<open>
  The party-wide query of \<^verbatim>\<open>server/app.js\<close>:
  \<^verbatim>\<open>FROM districts d LEFT JOIN voters v ON v.district_id = d.id GROUP BY d.id
  ORDER BY supporters DESC, official_voters DESC\<close>
\<close>

definition party_districts :: "db \<Rightarrow> district_row list" where
  "party_districts s =
     sort_key (\<lambda>r. (- int (dr_supporters r), - dr_official_voters r))
       (List.map_filter district_of_group
          (map snd (group_by (\<lambda>(d, v). d_id d)
             (left_join (districts s) (voters s) (\<lambda>d v. v_district_id v = Some (d_id d))))))"

definition get_party_districts_app :: "fault \<Rightarrow> db \<Rightarrow> district_row list reply" where
  "get_party_districts_app f s =
     (case f of Some m \<Rightarrow> Err 500 m | None \<Rightarrow> Json (party_districts s))"

text \<open>
  The candidate-scoped query inside \<^verbatim>\<open>GET /api/candidate/:id\<close> of
  \<^verbatim>\<open>server/app.js\<close>:
  \<^verbatim>\<open>FROM districts d LEFT JOIN voters v ON v.district_id = d.id AND v.candidate_id = ?
  GROUP BY d.id ORDER BY supporters DESC\<close>
\<close>

definition candidate_districts :: "db \<Rightarrow> jsnum \<Rightarrow> district_row list" where
  "candidate_districts s i =
     sort_key (\<lambda>r. - int (dr_supporters r))
       (List.map_filter district_of_group
          (map snd (group_by (\<lambda>(d, v). d_id d)
             (left_join (districts s) (voters s)
                (\<lambda>d v. v_district_id v = Some (d_id d) \<and> id_is i (v_candidate_id v))))))"

text \<open>
  The joined rows of one district, and the row the specification asks for it: the
  district with the number of voter rows that the join condition attaches to it.
\<close>

definition district_block :: "(district \<Rightarrow> voter \<Rightarrow> bool) \<Rightarrow> voter list \<Rightarrow> district \<Rightarrow> (district \<times> voter option) list" where
  "district_block on vs d =
     (case filter (on d) vs of [] \<Rightarrow> [(d, None)] | m # ms \<Rightarrow> map (\<lambda>y. (d, Some y)) (m # ms))"

definition spec_district :: "(district \<Rightarrow> voter \<Rightarrow> bool) \<Rightarrow> voter list \<Rightarrow> district \<Rightarrow> district_row" where
  "spec_district on vs d =
     \<lparr>dr_district_id = d_id d, dr_district = d_name d, dr_official_voters = d_official_voters d,
       dr_supporters = length (filter (on d) vs)\<rparr>"

subsection \<open>Candidate full view: \<^verbatim>\<open>GET /api/candidate/:id\<close>\<close>

text \<open>
  \<^verbatim>\<open>SELECT c.*, d.name AS district_name FROM candidates c
  LEFT JOIN districts d ON d.id = c.district_id WHERE c.id = ?\<close>, read with \<^verbatim>\<open>get\<close>.
\<close>

definition sel_candidate :: "db \<Rightarrow> jsnum \<Rightarrow> (candidate \<times> string option) option" where
  "sel_candidate s i =
     map_option (\<lambda>(c, d). (c, map_option d_name d))
       (find (\<lambda>(c, d). id_is i (c_id c))
          (left_join (candidates s) (districts s) (\<lambda>c d. Some (d_id d) = c_district_id c)))"

text \<open>\<^verbatim>\<open>SELECT * FROM assistants WHERE candidate_id = ? ORDER BY created_at DESC\<close>\<close>

definition sel_assistants :: "db \<Rightarrow> jsnum \<Rightarrow> assistant list" where
  "sel_assistants s i =
     sort_desc a_created_at (filter (\<lambda>a. id_is i (a_candidate_id a)) (assistants s))"

text \<open>
  The recent voters of a candidate, \<^verbatim>\<open>WHERE candidate_id = ? ORDER BY created_at DESC
  LIMIT n\<close>. The authenticated server selects \<^verbatim>\<open>id, full_name, dob,
  electoral_card, created_at\<close> with limit 300, \<^verbatim>\<open>server/app.js\<close> the same columns
  without the id with limit 500.
\<close>

definition recent_voters :: "nat \<Rightarrow> db \<Rightarrow> jsnum \<Rightarrow> voter list" where
  "recent_voters n s i =
     take n (sort_desc v_created_at (filter (\<lambda>v. id_is i (v_candidate_id v)) (voters s)))"

record view_srv =
  vs_candidate :: "candidate \<times> string option"
  vs_assistants :: "assistant list"
  vs_voters :: "(int \<times> string \<times> string option \<times> string option \<times> string) list"

text \<open>
  The handler of the authenticated server: three store calls inside one
  \<^verbatim>\<open>try/catch\<close>, whose \<^verbatim>\<open>catch\<close> answers 500 with the error's message.
\<close>

definition get_candidate_srv :: "fault \<Rightarrow> fault \<Rightarrow> fault \<Rightarrow> db \<Rightarrow> jsnum \<Rightarrow> view_srv reply" where
  "get_candidate_srv f1 f2 f3 s i =
     (case f1 of
        Some m \<Rightarrow> Err 500 m
      | None \<Rightarrow>
          (case sel_candidate s i of
             None \<Rightarrow> Err 404 ''Candidate not found''
           | Some cand \<Rightarrow>
               (case f2 of
                  Some m \<Rightarrow> Err 500 m
                | None \<Rightarrow>
                    (case f3 of
                       Some m \<Rightarrow> Err 500 m
                     | None \<Rightarrow>
                         Json \<lparr>vs_candidate = cand, vs_assistants = sel_assistants s i,
                               vs_voters =
                                 map (\<lambda>v. (v_id v, v_full_name v, v_dob v, v_electoral_card v,
                                            v_created_at v))
                                   (recent_voters 300 s i)\<rparr>))))"

record view_app =
  va_candidate :: "candidate \<times> string option"
  va_assistants :: "assistant list"
  va_byDistrict :: "district_row list"
  va_weekly :: "(string \<times> nat) list"
  va_voters :: "(string \<times> string option \<times> string option \<times> string) list"

text \<open>
  \<^verbatim>\<open>SELECT yweek, supporters FROM vw_weekly_candidate WHERE candidate_id = ?
  ORDER BY yweek\<close>. The view is defined in the database file, which is not among the
  sources; its rows \<open>(candidate_id, yweek, supporters)\<close> are the parameter \<open>vw\<close>.
\<close>

definition sel_weekly :: "(int \<times> string \<times> nat) list \<Rightarrow> jsnum \<Rightarrow> (string \<times> nat) list" where
  "sel_weekly vw i = sort_key fst (map snd (filter (\<lambda>r. id_is i (fst r)) vw))"

text \<open>
  The handler of \<^verbatim>\<open>server/app.js\<close>: five nested callbacks. The first answers
  \<^verbatim>\<open>if (e || !cand) return res.status(404)...\<close>, the other four
  \<^verbatim>\<open>if (e) return res.status(500).json({ok: false, msg: e.message})\<close>.
\<close>

definition get_candidate_app ::
  "(db \<Rightarrow> (int \<times> string \<times> nat) list) \<Rightarrow> fault \<Rightarrow> fault \<Rightarrow> fault \<Rightarrow> fault \<Rightarrow> fault \<Rightarrow>
   db \<Rightarrow> jsnum \<Rightarrow> view_app reply" where
  "get_candidate_app vw f1 f2 f3 f4 f5 s i =
     (case (f1, sel_candidate s i) of
        (None, Some cand) \<Rightarrow>
          (case f2 of
             Some m \<Rightarrow> Err 500 m
           | None \<Rightarrow>
               (case f3 of
                  Some m \<Rightarrow> Err 500 m
                | None \<Rightarrow>
                    (case f4 of
                       Some m \<Rightarrow> Err 500 m
                     | None \<Rightarrow>
                         (case f5 of
                            Some m \<Rightarrow> Err 500 m
                          | None \<Rightarrow>
                              Json \<lparr>va_candidate = cand, va_assistants = sel_assistants s i,
                                    va_byDistrict = candidate_districts s i,
                                    va_weekly = sel_weekly (vw s) i,
                                    va_voters =
                                      map (\<lambda>v. (v_full_name v, v_dob v, v_electoral_card v,
                                                 v_created_at v))
                                        (recent_voters 500 s i)\<rparr>))))
      | _ \<Rightarrow> Err 404 ''Candidate not found'')"


subsection \<open>Admin mutations of \<^verbatim>\<open>server/app.js\<close>: candidates, districts, party\<close>

record candidate_body =
  cb_name :: "string field"
  cb_district_id :: "int field"
  cb_target :: jsval

text \<open>
  \<^verbatim>\<open>INSERT INTO candidates(name, district_id, target) VALUES (?,?,?)\<close> with
  \<^verbatim>\<open>[name, district_id || null, +target || 0]\<close>, after \<^verbatim>\<open>if (!name)\<close> answered 400.
\<close>

definition post_candidates_app ::
  "(string \<Rightarrow> jsnum) \<Rightarrow> fault \<Rightarrow> db \<Rightarrow> candidate_body \<Rightarrow> db \<times> int reply" where
  "post_candidates_app s2n f s b =
     (case str_or_null (cb_name b) of
        None \<Rightarrow> (s, Err 400 ''name required'')
      | Some name \<Rightarrow>
          (case f of
             Some m \<Rightarrow> (s, Err 500 m)
           | None \<Rightarrow>
               (let i = fresh_id (seq_candidates s) (map c_id (candidates s)) in
                (s\<lparr>candidates := candidates s @
                     [\<lparr>c_id = i, c_name = name, c_district_id = int_or_null (cb_district_id b),
                       c_target = or_zero (to_number s2n (cb_target b))\<rparr>],
                   seq_candidates := i\<rparr>, Json i))))"

text \<open>
  \<^verbatim>\<open>UPDATE candidates SET name = ?, district_id = ?, target = ? WHERE id = ?\<close> with
  \<^verbatim>\<open>[name, district_id || null, +target || 0, +req.params.id]\<close>. The name is bound as
  it is: an absent or \<^verbatim>\<open>null\<close> name is \<^verbatim>\<open>NULL\<close>, which the \<^verbatim>\<open>NOT NULL\<close> column
  refuses when a row is updated. The answer holds the number of rows changed.
\<close>

definition put_candidates_app ::
  "(string \<Rightarrow> jsnum) \<Rightarrow> fault \<Rightarrow> db \<Rightarrow> jsnum \<Rightarrow> candidate_body \<Rightarrow> db \<times> nat reply" where
  "put_candidates_app s2n f s i b =
     (case f of
        Some m \<Rightarrow> (s, Err 500 m)
      | None \<Rightarrow>
          (case cb_name b of
             Val name \<Rightarrow>
               (s\<lparr>candidates :=
                    map (\<lambda>c. if id_is i (c_id c)
                              then c\<lparr>c_name := name, c_district_id := int_or_null (cb_district_id b),
                                     c_target := or_zero (to_number s2n (cb_target b))\<rparr>
                              else c) (candidates s)\<rparr>,
                Json (length (filter (\<lambda>c. id_is i (c_id c)) (candidates s))))
           | _ \<Rightarrow>
               (if filter (\<lambda>c. id_is i (c_id c)) (candidates s) = [] then (s, Json 0)
                else (s, Err 500 ''SQLITE_CONSTRAINT: NOT NULL constraint failed: candidates.name''))))"

record district_body =
  di_governorate_id :: "int field"
  di_name :: "string field"
  di_official_voters :: jsval

text \<open>
  \<^verbatim>\<open>INSERT INTO districts(governorate_id, name, official_voters) VALUES (?,?,?)\<close> with
  \<^verbatim>\<open>[governorate_id || null, name, +official_voters || 0]\<close>.
\<close>

definition post_districts_app ::
  "(string \<Rightarrow> jsnum) \<Rightarrow> fault \<Rightarrow> db \<Rightarrow> district_body \<Rightarrow> db \<times> int reply" where
  "post_districts_app s2n f s b =
     (case str_or_null (di_name b) of
        None \<Rightarrow> (s, Err 400 ''name required'')
      | Some name \<Rightarrow>
          (case f of
             Some m \<Rightarrow> (s, Err 500 m)
           | None \<Rightarrow>
               (let i = fresh_id (seq_districts s) (map d_id (districts s)) in
                (s\<lparr>districts := districts s @
                     [\<lparr>d_id = i, d_governorate_id = int_or_null (di_governorate_id b),
                       d_name = name,
                       d_official_voters = or_zero (to_number s2n (di_official_voters b))\<rparr>],
                   seq_districts := i\<rparr>, Json i))))"

text \<open>
  \<^verbatim>\<open>UPDATE districts SET governorate_id = ?, name = ?, official_voters = ? WHERE id = ?\<close>
\<close>

definition put_districts_app ::
  "(string \<Rightarrow> jsnum) \<Rightarrow> fault \<Rightarrow> db \<Rightarrow> jsnum \<Rightarrow> district_body \<Rightarrow> db \<times> nat reply" where
  "put_districts_app s2n f s i b =
     (case f of
        Some m \<Rightarrow> (s, Err 500 m)
      | None \<Rightarrow>
          (case di_name b of
             Val name \<Rightarrow>
               (s\<lparr>districts :=
                    map (\<lambda>d. if id_is i (d_id d)
                              then d\<lparr>d_governorate_id := int_or_null (di_governorate_id b),
                                     d_name := name,
                                     d_official_voters := or_zero (to_number s2n (di_official_voters b))\<rparr>
                              else d) (districts s)\<rparr>,
                Json (length (filter (\<lambda>d. id_is i (d_id d)) (districts s))))
           | _ \<Rightarrow>
               (if filter (\<lambda>d. id_is i (d_id d)) (districts s) = [] then (s, Json 0)
                else (s, Err 500 ''SQLITE_CONSTRAINT: NOT NULL constraint failed: districts.name''))))"

record party_body =
  pb_name :: "string field"
  pb_threshold :: jsval
  pb_start_date :: "string field"
  pb_end_date :: "string field"

text \<open>
  \<^verbatim>\<open>PUT /api/party\<close>: an upsert of the row with id 1 with
  \<^verbatim>\<open>[name || '', +threshold || 0, start_date || null, end_date || null]\<close>.
\<close>

definition put_party_app :: "(string \<Rightarrow> jsnum) \<Rightarrow> fault \<Rightarrow> db \<Rightarrow> party_body \<Rightarrow> db \<times> unit reply" where
  "put_party_app s2n f s b =
     (case f of
        Some m \<Rightarrow> (s, Err 500 m)
      | None \<Rightarrow>
          (s\<lparr>party_row :=
               Some \<lparr>p_name = (case str_or_null (pb_name b) of Some n \<Rightarrow> n | None \<Rightarrow> []),
                     p_threshold = Finite (or_zero (to_number s2n (pb_threshold b))),
                     p_start_date = str_or_null (pb_start_date b),
                     p_end_date = str_or_null (pb_end_date b)\<rparr>\<rparr>, Json ()))"

subsection \<open>The threshold of the authenticated server: \<^verbatim>\<open>POST /api/party-progress\<close>\<close>

text \<open>
  \<^verbatim>\<open>const th = Math.max(0, parseInt(req.body?.threshold || 0, 10) || 0)\<close>, then
  \<^verbatim>\<open>UPDATE party SET threshold=? WHERE id=1\<close>.
\<close>

definition threshold_of :: "jsval \<Rightarrow> num64" where
  "threshold_of v =
     js_max (Finite 0) (num_or_zero (parseInt_val (if truthy v then v else JNum 0)))"

definition post_party_progress_srv :: "fault \<Rightarrow> db \<Rightarrow> jsval \<Rightarrow> db \<times> unit reply" where
  "post_party_progress_srv f s v =
     (case f of
        Some m \<Rightarrow> (s, Err 500 m)
      | None \<Rightarrow>
          (s\<lparr>party_row := map_option (\<lambda>p. p\<lparr>p_threshold := threshold_of v\<rparr>) (party_row s)\<rparr>,
           Json ()))"

text \<open>
  What the handlers do with a numeric field, described by the kind of input. In
  \<^verbatim>\<open>server/app.js\<close> a missing field, \<^verbatim>\<open>null\<close> and \<^verbatim>\<open>false\<close> are stored as 0,
  \<^verbatim>\<open>true\<close> as 1, a number as it is, a negative one too, and a string as the whole
  number it converts to, or as 0 when it converts to no number.
\<close>

fun spec_number :: "(string \<Rightarrow> jsnum) \<Rightarrow> jsval \<Rightarrow> int" where
  "spec_number s2n JUndefined = 0"
| "spec_number s2n JNull = 0"
| "spec_number s2n (JBool b) = (if b then 1 else 0)"
| "spec_number s2n (JNum n) = sint n"
| "spec_number s2n (JStr x) = (case s2n x of NaN \<Rightarrow> 0 | Num k \<Rightarrow> k)"

text \<open>
  The threshold of the authenticated server: a number is stored as it is when it is
  not negative and as 0 otherwise; a string counts as the number that its leading
  digits denote, as \<^verbatim>\<open>parseInt\<close> reads them, and as 0 when it has none; everything
  else is stored as 0.
\<close>

fun spec_threshold :: "jsval \<Rightarrow> num64" where
  "spec_threshold (JNum n) = Finite (max 0 (sint n))"
| "spec_threshold (JStr x) =
     (case parseInt10 x of
        Finite k \<Rightarrow> Finite (max 0 k)
      | PosInf \<Rightarrow> PosInf
      | _ \<Rightarrow> Finite 0)"
| "spec_threshold _ = Finite 0"

subsection \<open>Editing a voter: \<^verbatim>\<open>PUT /api/voters/:id\<close>\<close>

text \<open>
  \<^verbatim>\<open>SELECT id FROM voters WHERE electoral_card=? AND id<>?\<close>. With a \<open>NaN\<close> id the
  comparison \<^verbatim>\<open>id <> NULL\<close> holds for no row.
\<close>

definition sel_card_other :: "db \<Rightarrow> string \<Rightarrow> jsnum \<Rightarrow> int option" where
  "sel_card_other s ec i =
     map_option v_id
       (find (\<lambda>v. v_electoral_card v = Some ec
                   \<and> (case i of NaN \<Rightarrow> False | Num n \<Rightarrow> v_id v \<noteq> n)) (voters s))"

text \<open>
  \<^verbatim>\<open>if (x !== undefined) set(col, x || null)\<close>: the new value of a nullable column.
\<close>

definition set_int :: "int field \<Rightarrow> int option \<Rightarrow> int option" where
  "set_int x old = (case x of Absent \<Rightarrow> old | _ \<Rightarrow> int_or_null x)"

definition set_str :: "string field \<Rightarrow> string option \<Rightarrow> string option" where
  "set_str x old = (case x of Absent \<Rightarrow> old | _ \<Rightarrow> str_or_null x)"

text \<open>\<^verbatim>\<open>if (!fields.length)\<close>: the body names none of the seven columns.\<close>

definition no_fields :: "voter_body \<Rightarrow> bool" where
  "no_fields b \<longleftrightarrow>
     b_candidate_id b = Absent \<and> b_assistant_id b = Absent \<and> b_full_name b = Absent
     \<and> b_dob b = Absent \<and> b_district_id b = Absent \<and> b_polling_center b = Absent
     \<and> b_electoral_card b = Absent"

text \<open>
  The first \<^verbatim>\<open>NOT NULL\<close> column that the update would set to \<^verbatim>\<open>NULL\<close>:
  \<^verbatim>\<open>candidate_id\<close> and \<^verbatim>\<open>full_name\<close> are declared \<^verbatim>\<open>NOT NULL\<close>.
\<close>

definition null_violation :: "voter_body \<Rightarrow> string option" where
  "null_violation b =
     (if b_candidate_id b \<noteq> Absent \<and> int_or_null (b_candidate_id b) = None
      then Some ''SQLITE_CONSTRAINT: NOT NULL constraint failed: voters.candidate_id''
      else if b_full_name b \<noteq> Absent \<and> str_or_null (b_full_name b) = None
      then Some ''SQLITE_CONSTRAINT: NOT NULL constraint failed: voters.full_name''
      else None)"

text \<open>The row after \<^verbatim>\<open>UPDATE voters SET ... WHERE id=?\<close> with the fields of the body.\<close>

definition update_row :: "voter_body \<Rightarrow> voter \<Rightarrow> voter" where
  "update_row b v =
     v\<lparr>v_candidate_id :=
         (case int_or_null (b_candidate_id b) of Some c \<Rightarrow> c | None \<Rightarrow> v_candidate_id v),
       v_assistant_id := set_int (b_assistant_id b) (v_assistant_id v),
       v_full_name :=
         (case str_or_null (b_full_name b) of Some n \<Rightarrow> n | None \<Rightarrow> v_full_name v),
       v_dob := set_str (b_dob b) (v_dob v),
       v_district_id := set_int (b_district_id b) (v_district_id v),
       v_polling_center := set_str (b_polling_center b) (v_polling_center v),
       v_electoral_card := set_str (b_electoral_card b) (v_electoral_card v)\<rparr>"

definition run_update :: "fault \<Rightarrow> db \<Rightarrow> jsnum \<Rightarrow> voter_body \<Rightarrow> db \<times> nat reply" where
  "run_update f_upd s i b =
     (if no_fields b then (s, Json 0)
      else
        (case f_upd of
           Some m \<Rightarrow> (s, Err 500 m)
         | None \<Rightarrow>
             (case (if filter (\<lambda>v. id_is i (v_id v)) (voters s) = [] then None
                    else null_violation b) of
                Some m \<Rightarrow> (s, Err 500 m)
              | None \<Rightarrow>
                  (s\<lparr>voters := map (\<lambda>v. if id_is i (v_id v) then update_row b v else v) (voters s)\<rparr>,
                   Json (length (filter (\<lambda>v. id_is i (v_id v)) (voters s)))))))"

text \<open>
  The handler: the duplicate lookup runs only for a non-empty
  \<^verbatim>\<open>electoral_card\<close>; a hit is answered with 400 before any update.
\<close>

definition put_voters_srv :: "fault \<Rightarrow> fault \<Rightarrow> db \<Rightarrow> jsnum \<Rightarrow> voter_body \<Rightarrow> db \<times> nat reply" where
  "put_voters_srv f_dupe f_upd s i b =
     (case str_or_null (b_electoral_card b) of
        Some ec \<Rightarrow>
          (case f_dupe of
             Some m \<Rightarrow> (s, Err 500 m)
           | None \<Rightarrow>
               (case sel_card_other s ec i of
                  Some d \<Rightarrow> (s, Err 400 ''Electoral card already used'')
                | None \<Rightarrow> run_update f_upd s i b))
      | None \<Rightarrow> run_update f_upd s i b)"

subsection \<open>Admin voter listing: \<^verbatim>\<open>GET /api/admin/voters\<close>\<close>

text \<open>
  \<^verbatim>\<open>req.query.x || d\<close> for a query parameter that is absent or a string: the
  default stands in for an absent or empty one.
\<close>

definition or_str :: "string option \<Rightarrow> string \<Rightarrow> string" where
  "or_str q d = (case q of None \<Rightarrow> d | Some x \<Rightarrow> if x \<noteq> [] then x else d)"

definition page_of :: "string option \<Rightarrow> num64" where
  "page_of q = js_max (Finite 1) (parseInt10 (or_str q ''1''))"

definition size_of :: "string option \<Rightarrow> num64" where
  "size_of q = js_min (Finite 50) (js_max (Finite 5) (parseInt10 (or_str q ''20'')))"

text \<open>\<^verbatim>\<open>(page - 1) * size\<close>\<close>

definition offset_of :: "num64 \<Rightarrow> num64 \<Rightarrow> num64" where
  "offset_of page sz = js_mul (js_sub page (Finite 1)) sz"

text \<open>\<^verbatim>\<open>String(x).trim()\<close> on an ASCII string.\<close>

definition trim :: "string \<Rightarrow> string" where
  "trim x = rev (dropWhile is_ws (rev (dropWhile is_ws x)))"

text \<open>
  \<^verbatim>\<open>LIMIT z OFFSET o\<close> with integers: a negative limit is no limit, a negative
  offset is none.
\<close>

definition sql_limit :: "int \<Rightarrow> int \<Rightarrow> 'a list \<Rightarrow> 'a list" where
  "sql_limit z off rows = (if z < 0 then drop (nat off) rows else take (nat z) (drop (nat off) rows))"

record voter_item =
  vi_id :: int
  vi_full_name :: string
  vi_electoral_card :: "string option"
  vi_candidate_id :: int
  vi_district_id :: "int option"

record voters_page =
  vp_page :: num64
  vp_size :: num64
  vp_items :: "voter_item list"

text \<open>
  The handler. \<open>like\<close> is SQLite's \<^verbatim>\<open>LIKE\<close>, taking the pattern first. A \<open>NaN\<close>
  limit or offset is bound as \<^verbatim>\<open>NULL\<close>, and a number beyond the 32-bit range as a
  \<^verbatim>\<open>REAL\<close>. SQLite takes a \<^verbatim>\<open>REAL\<close> as a limit or an offset when it is a whole
  number below \<open>2 ^ 63\<close>, and refuses \<^verbatim>\<open>NULL\<close> and every other \<^verbatim>\<open>REAL\<close> (datatype
  mismatch); the handler's \<^verbatim>\<open>catch\<close> answers 500.
\<close>

definition admin_voters_srv ::
  "(string \<Rightarrow> string \<Rightarrow> bool) \<Rightarrow> fault \<Rightarrow> db \<Rightarrow> string option \<Rightarrow> string option \<Rightarrow> string option \<Rightarrow>
   voters_page reply" where
  "admin_voters_srv like f s q_search q_page q_size =
     (let search = trim (or_str q_search []);
          page = page_of q_page;
          sz = size_of q_size;
          rows = (if search \<noteq> []
                  then filter (\<lambda>v. like (''%'' @ search @ ''%'') (v_full_name v)
                                   \<or> like (''%'' @ search @ ''%'')
                                        (case v_electoral_card v of None \<Rightarrow> [] | Some c \<Rightarrow> c))
                         (voters s)
                  else voters s)
      in case f of
           Some m \<Rightarrow> Err 500 m
         | None \<Rightarrow>
             (case (sz, offset_of page sz) of
                (Finite z, Finite off) \<Rightarrow>
                  (if \<bar>off\<bar> < 2 ^ 63
                   then Json \<lparr>vp_page = page, vp_size = sz,
                              vp_items =
                                map (\<lambda>v. \<lparr>vi_id = v_id v, vi_full_name = v_full_name v,
                                           vi_electoral_card = v_electoral_card v,
                                           vi_candidate_id = v_candidate_id v,
                                           vi_district_id = v_district_id v\<rparr>)
                                  (sql_limit z off (sort_key (\<lambda>v. - v_id v) rows))\<rparr>
                   else Err 500 ''SQLITE_MISMATCH: datatype mismatch'')
              | _ \<Rightarrow> Err 500 ''SQLITE_MISMATCH: datatype mismatch''))"


subsection \<open>Example stores and requests\<close>

definition db_empty :: db where
  "db_empty = \<lparr>party_row = None, districts = [], candidates = [], assistants = [],
                voters = [], seq_districts = 0, seq_candidates = 0, seq_voters = 0\<rparr>"

definition voter_A1 :: voter where
  "voter_A1 = \<lparr>v_id = 1, v_candidate_id = 1, v_assistant_id = None, v_full_name = ''A'',
                v_dob = Some ''1990-01-01'', v_district_id = None, v_polling_center = None,
                v_electoral_card = Some ''EC-1'', v_created_at = ''2024-05-01 10:00:00''\<rparr>"

definition db_one_voter :: db where
  "db_one_voter = db_empty\<lparr>voters := [voter_A1], seq_voters := 1\<rparr>"

definition body_A :: voter_body where
  "body_A = \<lparr>b_candidate_id = Val 2, b_assistant_id = Absent, b_full_name = Val ''B'',
              b_dob = Absent, b_district_id = Absent, b_polling_center = Absent,
              b_electoral_card = Val ''EC-1'', b_aid = JUndefined\<rparr>"

definition body_no_candidate :: voter_body where
  "body_no_candidate = body_A\<lparr>b_candidate_id := Absent\<rparr>"

text \<open>
  Two districts, three candidates and four voters: two voters each for the candidates 1
  and 3, none for candidate 2, and no voter with a district.
\<close>

definition db_two :: db where
  "db_two = db_empty\<lparr>
     districts := [\<lparr>d_id = 1, d_governorate_id = None, d_name = ''North'', d_official_voters = 10\<rparr>,
                   \<lparr>d_id = 2, d_governorate_id = None, d_name = ''South'', d_official_voters = 20\<rparr>],
     candidates := [\<lparr>c_id = 1, c_name = ''Ann'', c_district_id = Some 1, c_target = 8\<rparr>,
                    \<lparr>c_id = 2, c_name = ''Bob'', c_district_id = Some 2, c_target = 0\<rparr>,
                    \<lparr>c_id = 3, c_name = ''Cy'', c_district_id = None, c_target = 3\<rparr>],
     voters := [voter_A1,
                voter_A1\<lparr>v_id := 2, v_candidate_id := 3, v_electoral_card := None\<rparr>,
                voter_A1\<lparr>v_id := 3, v_candidate_id := 3, v_full_name := ''C'',
                          v_electoral_card := None\<rparr>,
                voter_A1\<lparr>v_id := 4, v_full_name := ''D'', v_electoral_card := Some ''EC-4''\<rparr>],
     seq_districts := 2, seq_candidates := 3, seq_voters := 4\<rparr>"




text \<open>A store with a party row.\<close>

definition db_party :: db where
  "db_party = db_two\<lparr>party_row :=
     Some \<lparr>p_name = ''Party'', p_threshold = Finite 100, p_start_date = None, p_end_date = None\<rparr>\<rparr>"

text \<open>One candidate holding the same person twice.\<close>

definition db_twice :: db where
  "db_twice = db_empty\<lparr>
     candidates := [\<lparr>c_id = 1, c_name = ''Ann'', c_district_id = None, c_target = 8\<rparr>],
     voters := [voter_A1, voter_A1\<lparr>v_id := 2, v_electoral_card := None\<rparr>],
     seq_candidates := 1, seq_voters := 2\<rparr>"


text \<open>A body of \<^verbatim>\<open>PUT /api/voters/:id\<close> that names the electoral card only.\<close>

definition body_card_only :: voter_body where
  "body_card_only = \<lparr>b_candidate_id = Absent, b_assistant_id = Absent, b_full_name = Absent,
                      b_dob = Absent, b_district_id = Absent, b_polling_center = Absent,
                      b_electoral_card = Val ''EC-1'', b_aid = JUndefined\<rparr>"


text \<open>Bodies of the admin mutations: a negative target, and a target that is no number.\<close>

definition body_negative_target :: candidate_body where
  "body_negative_target = \<lparr>cb_name = Val ''Zed'', cb_district_id = Absent, cb_target = JNum (- 5)\<rparr>"

definition body_text_target :: candidate_body where
  "body_text_target = \<lparr>cb_name = Val ''Zed'', cb_district_id = Absent, cb_target = JStr ''abc''\<rparr>"

definition body_negative_official :: district_body where
  "body_negative_official =
     \<lparr>di_governorate_id = Absent, di_name = Val ''West'', di_official_voters = JNum (- 7)\<rparr>"


section \<open>Properties\<close>

subsection \<open>Validation failures of the ingestion\<close>

lemma or_null_None_int:
  "int_or_null x = None \<longleftrightarrow> x = Absent \<or> x = Null \<or> x = Val 0"
  by (cases x) auto

lemma or_null_None_str:
  "str_or_null x = None \<longleftrightarrow> x = Absent \<or> x = Null \<or> x = Val []"
  by (cases x) auto

text \<open>
  C4. An ingestion call whose \<^verbatim>\<open>candidate_id\<close> or \<^verbatim>\<open>full_name\<close> is absent,
  \<^verbatim>\<open>null\<close> or empty (0 for the id, the empty string for the name) is answered with
  status 400 and \<^verbatim>\<open>ok: false\<close>, and the store is unchanged: no row is appended to
  the voters. This holds for both servers and whatever the store calls would do.
\<close>

theorem C4_validation_error:
  assumes "b_candidate_id b \<in> {Absent, Null, Val 0} \<or> b_full_name b \<in> {Absent, Null, Val []}"
  shows "post_voters_srv f_dupe f_ins now s b = (s, Err 400 ''candidate_id & full_name required'')
       \<and> post_voters_app s2n f_dupe f_ins now s b = (s, Err 400 ''candidate_id & full_name required'')
       \<and> status (snd (post_voters_srv f_dupe f_ins now s b)) = 400
       \<and> \<not> ok (snd (post_voters_srv f_dupe f_ins now s b))
       \<and> voters (fst (post_voters_srv f_dupe f_ins now s b)) = voters s
       \<and> status (snd (post_voters_app s2n f_dupe f_ins now s b)) = 400
       \<and> \<not> ok (snd (post_voters_app s2n f_dupe f_ins now s b))
       \<and> voters (fst (post_voters_app s2n f_dupe f_ins now s b)) = voters s"
proof -
  from assms have "int_or_null (b_candidate_id b) = None \<or> str_or_null (b_full_name b) = None"
    by (auto simp: or_null_None_int or_null_None_str)
  then have "post_voters_srv f_dupe f_ins now s b = (s, Err 400 ''candidate_id & full_name required'')"
    and "post_voters_app s2n f_dupe f_ins now s b = (s, Err 400 ''candidate_id & full_name required'')"
    by (auto simp: post_voters_srv_def post_voters_app_def split: option.splits)
  then show ?thesis by simp
qed

theorem C4_validation_error_witness:
  "post_voters_srv None None ''2024-05-02 09:00:00'' db_one_voter body_no_candidate
     = (db_one_voter, Err 400 ''candidate_id & full_name required'')
   \<and> post_voters_app (\<lambda>x. NaN) None None ''2024-05-02 09:00:00'' db_one_voter body_no_candidate
     = (db_one_voter, Err 400 ''candidate_id & full_name required'')"
proof -
  have h: "b_candidate_id body_no_candidate \<in> {Absent, Null, Val 0}
           \<or> b_full_name body_no_candidate \<in> {Absent, Null, Val []}"
    by (simp add: body_no_candidate_def body_A_def)
  from C4_validation_error [OF h] show ?thesis by blast
qed

subsection \<open>The duplicate policy of the ingestion\<close>

lemma fold_max_ge: "(s::int) \<le> fold max ids s"
  by (induction ids arbitrary: s) (auto intro: order_trans[OF max.cobounded2])

lemma fold_max_mem: "x \<in> set ids \<Longrightarrow> (x::int) \<le> fold max ids s"
proof (induction ids arbitrary: s)
  case Nil
  then show ?case by simp
next
  case (Cons a ids)
  show ?case
  proof (cases "x = a")
    case True
    have "a \<le> max a s" by simp
    also have "\<dots> \<le> fold max ids (max a s)" by (rule fold_max_ge)
    finally show ?thesis using True by simp
  next
    case False
    with Cons show ?thesis by simp
  qed
qed

lemma fresh_id_new: "fresh_id s ids \<notin> set ids"
  using fold_max_mem[of "fresh_id s ids" ids s] by (auto simp: fresh_id_def)

lemma sel_card_Some:
  "(sel_card s ec \<noteq> None) \<longleftrightarrow> (\<exists>v\<in>set (voters s). v_electoral_card v = Some ec)"
  by (auto simp: sel_card_def find_None_iff)

lemma post_voters_srv_dup:
  assumes "int_or_null (b_candidate_id b) = Some cid" "str_or_null (b_full_name b) = Some name"
    and "str_or_null (b_electoral_card b) = Some ec"
    and "\<exists>v\<in>set (voters s). v_electoral_card v = Some ec"
  shows "post_voters_srv None f_ins now s b = (s, Json Duplicate)"
  using assms sel_card_Some[of s ec]
  by (auto simp: post_voters_srv_def split: option.splits)

lemma post_voters_app_dup:
  assumes "int_or_null (b_candidate_id b) = Some cid" "str_or_null (b_full_name b) = Some name"
    and "str_or_null (b_electoral_card b) = Some ec"
    and "\<exists>v\<in>set (voters s). v_electoral_card v = Some ec"
  shows "post_voters_app s2n None f_ins now s b = (s, Json Duplicate)"
  using assms sel_card_Some[of s ec]
  by (auto simp: post_voters_app_def split: option.splits)

lemma post_voters_srv_new:
  assumes "int_or_null (b_candidate_id b) = Some cid" "str_or_null (b_full_name b) = Some name"
    and "str_or_null (b_electoral_card b) = Some ec"
    and "\<not> (\<exists>v\<in>set (voters s). v_electoral_card v = Some ec)"
  shows "post_voters_srv None f_ins now s b =
           insert_reply f_ins now s cid (int_or_null (b_assistant_id b)) name b"
  using assms sel_card_Some[of s ec]
  by (auto simp: post_voters_srv_def split: option.splits)

lemma post_voters_app_new:
  assumes "int_or_null (b_candidate_id b) = Some cid" "str_or_null (b_full_name b) = Some name"
    and "str_or_null (b_electoral_card b) = Some ec"
    and "\<not> (\<exists>v\<in>set (voters s). v_electoral_card v = Some ec)"
  shows "post_voters_app s2n None f_ins now s b =
           insert_reply f_ins now s cid (assistant_app s2n b) name b"
  using assms sel_card_Some[of s ec]
  by (auto simp: post_voters_app_def split: option.splits)

lemma insert_reply_ok:
  "insert_reply None now s cid aid name b =
     (s\<lparr>voters := voters s @ [ingested now s cid aid name b],
        seq_voters := v_id (ingested now s cid aid name b)\<rparr>,
      Json (Created (v_id (ingested now s cid aid name b))))"
  by (simp add: insert_reply_def insert_voter_def ingested_def Let_def)

lemma ingested_id_new: "v_id (ingested now s cid aid name b) \<notin> v_id ` set (voters s)"
  using fresh_id_new[of "seq_voters s" "map v_id (voters s)"]
  by (simp add: ingested_def new_voter_def)

text \<open>
  C1, as the claim has it, fails: a call with a non-empty electoral card that no row
  holds, but without a candidate id, appends no row and is answered with 400.
\<close>

theorem C1_counterexample:
  "str_or_null (b_electoral_card body_no_candidate) = Some ''EC-1''
   \<and> \<not> (\<exists>v\<in>set (voters db_empty). v_electoral_card v = Some ''EC-1'')
   \<and> post_voters_srv None None ''2024-05-02 09:00:00'' db_empty body_no_candidate
       = (db_empty, Err 400 ''candidate_id & full_name required'')
   \<and> post_voters_app (\<lambda>x. NaN) None None ''2024-05-02 09:00:00'' db_empty body_no_candidate
       = (db_empty, Err 400 ''candidate_id & full_name required'')"
  by (simp add: body_no_candidate_def body_A_def db_empty_def post_voters_srv_def
        post_voters_app_def)

text \<open>
  C1, amended. Take an ingestion call that passes validation (\<^verbatim>\<open>candidate_id\<close> and
  \<^verbatim>\<open>full_name\<close> are non-empty), has a non-empty \<^verbatim>\<open>electoral_card\<close> and whose
  duplicate lookup does not fail in the store. If some voter row holds exactly that
  card, both servers answer \<^verbatim>\<open>{ok: true, duplicate: true}\<close> and leave the store as
  it is. Otherwise, when the insert does not fail either, exactly one row is appended
  to the voters, it carries the card and a rowid no earlier row has, and the answer is
  \<^verbatim>\<open>{ok: true, id}\<close> with that rowid.
\<close>

theorem C1_duplicate_policy:
  assumes "int_or_null (b_candidate_id b) = Some cid"
    and "str_or_null (b_full_name b) = Some name"
    and "str_or_null (b_electoral_card b) = Some ec"
  shows "((\<exists>v\<in>set (voters s). v_electoral_card v = Some ec) \<longrightarrow>
            post_voters_srv None f_ins now s b = (s, Json Duplicate)
          \<and> post_voters_app s2n None f_ins now s b = (s, Json Duplicate))
       \<and> (\<not> (\<exists>v\<in>set (voters s). v_electoral_card v = Some ec) \<longrightarrow>
            (\<exists>r. post_voters_srv None None now s b
                   = (s\<lparr>voters := voters s @ [r], seq_voters := v_id r\<rparr>, Json (Created (v_id r)))
                 \<and> v_id r \<notin> v_id ` set (voters s) \<and> v_electoral_card r = Some ec
                 \<and> v_candidate_id r = cid \<and> v_full_name r = name)
          \<and> (\<exists>r. post_voters_app s2n None None now s b
                   = (s\<lparr>voters := voters s @ [r], seq_voters := v_id r\<rparr>, Json (Created (v_id r)))
                 \<and> v_id r \<notin> v_id ` set (voters s) \<and> v_electoral_card r = Some ec
                 \<and> v_candidate_id r = cid \<and> v_full_name r = name))"
proof (intro conjI impI)
  assume d: "\<exists>v\<in>set (voters s). v_electoral_card v = Some ec"
  show "post_voters_srv None f_ins now s b = (s, Json Duplicate)"
    using assms d by (rule post_voters_srv_dup)
  show "post_voters_app s2n None f_ins now s b = (s, Json Duplicate)"
    using assms d by (rule post_voters_app_dup)
next
  assume n: "\<not> (\<exists>v\<in>set (voters s). v_electoral_card v = Some ec)"
  let ?r = "ingested now s cid (int_or_null (b_assistant_id b)) name b"
  have "post_voters_srv None None now s b
          = (s\<lparr>voters := voters s @ [?r], seq_voters := v_id ?r\<rparr>, Json (Created (v_id ?r)))"
    using post_voters_srv_new[OF assms n] by (simp add: insert_reply_ok)
  moreover have "v_id ?r \<notin> v_id ` set (voters s)" by (rule ingested_id_new)
  moreover have "v_electoral_card ?r = Some ec \<and> v_candidate_id ?r = cid \<and> v_full_name ?r = name"
    using assms(3) by (simp add: ingested_def new_voter_def)
  ultimately show "\<exists>r. post_voters_srv None None now s b
                   = (s\<lparr>voters := voters s @ [r], seq_voters := v_id r\<rparr>, Json (Created (v_id r)))
                 \<and> v_id r \<notin> v_id ` set (voters s) \<and> v_electoral_card r = Some ec
                 \<and> v_candidate_id r = cid \<and> v_full_name r = name"
    by blast
next
  assume n: "\<not> (\<exists>v\<in>set (voters s). v_electoral_card v = Some ec)"
  let ?r = "ingested now s cid (assistant_app s2n b) name b"
  have "post_voters_app s2n None None now s b
          = (s\<lparr>voters := voters s @ [?r], seq_voters := v_id ?r\<rparr>, Json (Created (v_id ?r)))"
    using post_voters_app_new[OF assms n] by (simp add: insert_reply_ok)
  moreover have "v_id ?r \<notin> v_id ` set (voters s)" by (rule ingested_id_new)
  moreover have "v_electoral_card ?r = Some ec \<and> v_candidate_id ?r = cid \<and> v_full_name ?r = name"
    using assms(3) by (simp add: ingested_def new_voter_def)
  ultimately show "\<exists>r. post_voters_app s2n None None now s b
                   = (s\<lparr>voters := voters s @ [r], seq_voters := v_id r\<rparr>, Json (Created (v_id r)))
                 \<and> v_id r \<notin> v_id ` set (voters s) \<and> v_electoral_card r = Some ec
                 \<and> v_candidate_id r = cid \<and> v_full_name r = name"
    by blast
qed

theorem C1_duplicate_policy_witness:
  "post_voters_srv None None ''2024-05-02 09:00:00'' db_one_voter body_A
     = (db_one_voter, Json Duplicate)
   \<and> post_voters_app (\<lambda>x. NaN) None None ''2024-05-02 09:00:00'' db_one_voter body_A
     = (db_one_voter, Json Duplicate)
   \<and> (\<exists>r. post_voters_srv None None ''2024-05-02 09:00:00'' db_empty body_A
            = (db_empty\<lparr>voters := [r], seq_voters := 1\<rparr>, Json (Created 1))
          \<and> v_id r = 1 \<and> v_electoral_card r = Some ''EC-1'')"
proof -
  have h1: "int_or_null (b_candidate_id body_A) = Some 2"
    and h2: "str_or_null (b_full_name body_A) = Some ''B''"
    and h3: "str_or_null (b_electoral_card body_A) = Some ''EC-1''"
    by (simp_all add: body_A_def)
  have d: "\<exists>v\<in>set (voters db_one_voter). v_electoral_card v = Some ''EC-1''"
    by (simp add: db_one_voter_def db_empty_def voter_A1_def)
  have n: "\<not> (\<exists>v\<in>set (voters db_empty). v_electoral_card v = Some ''EC-1'')"
    by (simp add: db_empty_def)
  have a: "post_voters_srv None None ''2024-05-02 09:00:00'' db_one_voter body_A
             = (db_one_voter, Json Duplicate)
           \<and> post_voters_app (\<lambda>x. NaN) None None ''2024-05-02 09:00:00'' db_one_voter body_A
             = (db_one_voter, Json Duplicate)"
    using C1_duplicate_policy [OF h1 h2 h3, where s = db_one_voter and f_ins = None
        and ?s2n = "\<lambda>x. NaN" and now = "''2024-05-02 09:00:00''"] d
    by blast
  have "\<exists>r. post_voters_srv None None ''2024-05-02 09:00:00'' db_empty body_A
            = (db_empty\<lparr>voters := voters db_empty @ [r], seq_voters := v_id r\<rparr>, Json (Created (v_id r)))
          \<and> v_id r \<notin> v_id ` set (voters db_empty) \<and> v_electoral_card r = Some ''EC-1''
          \<and> v_candidate_id r = 2 \<and> v_full_name r = ''B''"
    using C1_duplicate_policy [OF h1 h2 h3, where s = db_empty and f_ins = None
        and ?s2n = "\<lambda>x. NaN" and now = "''2024-05-02 09:00:00''"] n
    by blast
  then obtain r where r: "post_voters_srv None None ''2024-05-02 09:00:00'' db_empty body_A
            = (db_empty\<lparr>voters := voters db_empty @ [r], seq_voters := v_id r\<rparr>, Json (Created (v_id r)))"
    and c: "v_electoral_card r = Some ''EC-1''"
    by blast
  have e: "post_voters_srv None None ''2024-05-02 09:00:00'' db_empty body_A
             = (db_empty\<lparr>voters := [ingested ''2024-05-02 09:00:00'' db_empty 2 None ''B'' body_A],
                         seq_voters := 1\<rparr>, Json (Created 1))"
    by (simp add: post_voters_srv_def body_A_def db_empty_def sel_card_def insert_reply_def
          insert_voter_def ingested_def new_voter_def fresh_id_def Let_def)
  from r e have "v_id r = 1" by simp
  with r c have "post_voters_srv None None ''2024-05-02 09:00:00'' db_empty body_A
            = (db_empty\<lparr>voters := [r], seq_voters := 1\<rparr>, Json (Created 1))
          \<and> v_id r = 1 \<and> v_electoral_card r = Some ''EC-1''"
    by (simp add: db_empty_def)
  with a show ?thesis by blast
qed

subsection \<open>The candidate progress list\<close>

lemma find_filter_eq: "find P xs = (case filter P xs of [] \<Rightarrow> None | x # _ \<Rightarrow> Some x)"
  by (induction xs) auto

lemma left_join_unique:
  assumes "\<And>x. x \<in> set xs \<Longrightarrow> length (filter (on x) ys) \<le> 1"
  shows "left_join xs ys on = map (\<lambda>x. (x, find (on x) ys)) xs"
proof -
  have "(case filter (on x) ys of [] \<Rightarrow> [(x, None)] | m # ms \<Rightarrow> map (\<lambda>y. (x, Some y)) (m # ms))
          = [(x, find (on x) ys)]" if "x \<in> set xs" for x
    using assms[OF that] by (cases "filter (on x) ys") (auto simp: find_filter_eq)
  then show ?thesis
    unfolding left_join_def by (induction xs) auto
qed

lemma filter_key_unique:
  "distinct (map k ys) \<Longrightarrow> length (filter (\<lambda>y. Some (k y) = z) ys) \<le> 1"
proof (induction ys)
  case Nil then show ?case by simp
next
  case (Cons y ys)
  from Cons.prems have "k y \<notin> k ` set ys" by simp
  then have "\<forall>y'\<in>set ys. k y' \<noteq> k y" by (metis image_eqI)
  then have "filter (\<lambda>y'. Some (k y') = Some (k y)) ys = []"
    by (simp add: filter_empty_conv)
  with Cons show ?case by auto
qed

lemma filter_concat_block:
  assumes "distinct (map g xs)" and "x \<in> set xs"
    and "\<And>y r. y \<in> set xs \<Longrightarrow> r \<in> set (blk y) \<Longrightarrow> key r = g y"
  shows "filter (\<lambda>r. key r = g x) (concat (map blk xs)) = blk x"
  using assms
proof (induction xs)
  case Nil then show ?case by simp
next
  case (Cons a xs)
  have all_a: "filter (\<lambda>r. key r = g a) (blk a) = blk a"
    using Cons.prems(3)[of a] by (auto simp: filter_id_conv)
  show ?case
  proof (cases "x = a")
    case True
    have "key r \<noteq> g a" if "y \<in> set xs" "r \<in> set (blk y)" for y r
    proof -
      from that have "key r = g y" using Cons.prems(3)[of y r] by simp
      moreover from Cons.prems(1) that(1) have "g y \<noteq> g a" by (auto simp: image_iff)
      ultimately show ?thesis by simp
    qed
    then have "filter (\<lambda>r. key r = g a) (concat (map blk xs)) = []"
      by (auto simp: filter_empty_conv)
    with all_a True show ?thesis by simp
  next
    case False
    with Cons.prems have x: "x \<in> set xs" by simp
    with Cons.prems(1) have ne: "g a \<noteq> g x" by (auto simp: image_iff)
    have "filter (\<lambda>r. key r = g x) (blk a) = []"
      using Cons.prems(3)[of a] ne by (auto simp: filter_empty_conv)
    moreover have "filter (\<lambda>r. key r = g x) (concat (map blk xs)) = blk x"
      using Cons.IH[OF _ x] Cons.prems(1) Cons.prems(3) by simp
    ultimately show ?thesis by simp
  qed
qed

lemma candidates_join_blocks:
  assumes "distinct (map d_id (districts s))"
  shows "candidates_join s =
     concat (map (cand_block s) (map (\<lambda>c. (c, find (\<lambda>d. Some (d_id d) = c_district_id c) (districts s))) (candidates s)))"
proof -
  have "left_join (candidates s) (districts s) (\<lambda>c d. Some (d_id d) = c_district_id c)
      = map (\<lambda>c. (c, find (\<lambda>d. Some (d_id d) = c_district_id c) (districts s))) (candidates s)"
    by (rule left_join_unique) (rule filter_key_unique[OF assms])
  then show ?thesis
    by (simp add: candidates_join_def left_join_def cand_block_def case_prod_beta comp_def)
qed

lemma cand_block_key: "r \<in> set (cand_block s x) \<Longrightarrow> fst r = x"
  by (auto simp: cand_block_def split: list.splits)

lemma cand_block_nonempty: "cand_block s x \<noteq> []"
  by (auto simp: cand_block_def split: list.splits)

lemma cand_block_count:
  "count_col (\<lambda>(cd, v). map_option v_id v) (cand_block s x)
     = length (filter (\<lambda>v. v_candidate_id v = c_id (fst x)) (voters s))"
  by (auto simp: cand_block_def count_col_def split: list.splits)

lemma floor_half: "\<lfloor>1 / 2 :: rat\<rfloor> = 0"
  by (rule floor_unique) simp_all

lemma sql_round1_0: "sql_round1 0 = 0"
  by (simp add: sql_round1_def floor_half)

lemma progress_row_block:
  "progress_row (cand_block s (c, find (\<lambda>d. Some (d_id d) = c_district_id c) (districts s)))
     = Some (spec_progress s c)"
proof -
  let ?x = "(c, find (\<lambda>d. Some (d_id d) = c_district_id c) (districts s))"
  obtain r rs where b: "cand_block s ?x = r # rs"
    using cand_block_nonempty[of s ?x] by (cases "cand_block s ?x") auto
  then have "fst r = ?x" using cand_block_key[of r s ?x] by simp
  then obtain v where r: "r = (?x, v)" by (cases r) auto
  have n: "count_col (\<lambda>(cd, v). map_option v_id v) (r # rs)
         = length (filter (\<lambda>v. v_candidate_id v = c_id c) (voters s))"
    using cand_block_count[of s ?x] b by simp
  show ?thesis
    unfolding b progress_row_def
    by (simp add: r n[unfolded r] spec_progress_def pct_def sql_round1_0 Let_def)
qed

lemma find_distinct_key:
  "distinct (map g xs) \<Longrightarrow> x \<in> set xs \<Longrightarrow> find (\<lambda>y. g y = g x) xs = Some x"
proof (induction xs)
  case Nil then show ?case by simp
next
  case (Cons a xs)
  show ?case
  proof (cases "x = a")
    case True then show ?thesis by simp
  next
    case False
    with Cons.prems have x: "x \<in> set xs" by simp
    with Cons.prems(1) have "g a \<noteq> g x" by (auto simp: image_iff)
    with Cons x show ?thesis by simp
  qed
qed

lemma map_filter_Some: "(\<And>x. x \<in> set xs \<Longrightarrow> f x = Some (h x)) \<Longrightarrow> List.map_filter f xs = map h xs"
  by (induction xs) (auto simp: List.map_filter_simps)

lemma candidates_progress_unsorted:
  assumes dc: "distinct (map c_id (candidates s))" and dd: "distinct (map d_id (districts s))"
  shows "mset (List.map_filter progress_row
          (map snd (group_by (\<lambda>((c, d), v). c_id c) (candidates_join s))))
       = image_mset (spec_progress s) (mset (candidates s))"
proof -
  let ?pair = "\<lambda>c. (c, find (\<lambda>d. Some (d_id d) = c_district_id c) (districts s))"
  let ?xs = "map ?pair (candidates s)"
  let ?key = "\<lambda>r :: (candidate \<times> district option) \<times> voter option. c_id (fst (fst r))"
  let ?g = "\<lambda>x :: candidate \<times> district option. c_id (fst x)"
  let ?J = "candidates_join s"
  let ?keys = "sort (remdups (map ?key ?J))"
  have key_eq: "(\<lambda>((c, d), v). c_id c) = ?key" by (auto simp: fun_eq_iff)
  have J: "?J = concat (map (cand_block s) ?xs)" by (rule candidates_join_blocks[OF dd])
  have dg: "distinct (map ?g ?xs)" using dc by (simp add: comp_def)
  have blk_key: "?key r = ?g y" if "r \<in> set (cand_block s y)" for r y
    using cand_block_key[OF that] by simp
  have grp: "filter (\<lambda>r. ?key r = c_id c) ?J = cand_block s (?pair c)" if "c \<in> set (candidates s)" for c
  proof -
    have "?pair c \<in> set ?xs" using that by simp
    from filter_concat_block[of ?g ?xs "?pair c" "cand_block s" ?key, OF dg this] blk_key
    show ?thesis unfolding J by simp
  qed
  have set_keys: "set ?keys = c_id ` set (candidates s)"
  proof -
    have "?key ` set ?J = c_id ` set (candidates s)"
    proof (intro equalityI subsetI)
      fix k assume "k \<in> ?key ` set ?J"
      then obtain r where "r \<in> set ?J" "k = ?key r" by blast
      then obtain c where "c \<in> set (candidates s)" "r \<in> set (cand_block s (?pair c))"
        unfolding J by auto
      with \<open>k = ?key r\<close> blk_key[of r "?pair c"] show "k \<in> c_id ` set (candidates s)" by auto
    next
      fix k assume "k \<in> c_id ` set (candidates s)"
      then obtain c where c: "c \<in> set (candidates s)" "k = c_id c" by blast
      obtain r where r: "r \<in> set (cand_block s (?pair c))"
        using cand_block_nonempty[of s "?pair c"] by (cases "cand_block s (?pair c)") auto
      then have "r \<in> set ?J" unfolding J using c by auto
      moreover have "?key r = k" using blk_key[OF r] c by simp
      ultimately show "k \<in> ?key ` set ?J" by blast
    qed
    then show ?thesis by simp
  qed
  define h where "h k = spec_progress s (the (find (\<lambda>c. c_id c = k) (candidates s)))" for k
  have h: "h (c_id c) = spec_progress s c" if "c \<in> set (candidates s)" for c
    using find_distinct_key[OF dc that] by (simp add: h_def)
  have row: "progress_row (filter (\<lambda>r. ?key r = k) ?J) = Some (h k)" if "k \<in> set ?keys" for k
  proof -
    from that set_keys obtain c where c: "c \<in> set (candidates s)" "k = c_id c" by auto
    show ?thesis using grp[OF c(1)] h[OF c(1)] c(2) by (simp add: progress_row_block)
  qed
  have "List.map_filter progress_row (map snd (group_by ?key ?J)) = map h ?keys"
  proof -
    have "map snd (group_by ?key ?J) = map (\<lambda>k. filter (\<lambda>r. ?key r = k) ?J) ?keys"
      by (simp add: group_by_def comp_def)
    moreover have "List.map_filter progress_row (map (\<lambda>k. filter (\<lambda>r. ?key r = k) ?J) ?keys)
        = List.map_filter (\<lambda>k. progress_row (filter (\<lambda>r. ?key r = k) ?J)) ?keys"
      by (simp add: List.map_filter_def comp_def filter_map)
    moreover have "List.map_filter (\<lambda>k. progress_row (filter (\<lambda>r. ?key r = k) ?J)) ?keys = map h ?keys"
      by (rule map_filter_Some) (rule row)
    ultimately show ?thesis by simp
  qed
  moreover have "mset ?keys = mset (map c_id (candidates s))"
  proof -
    have "distinct ?keys" by simp
    moreover have "set ?keys = set (map c_id (candidates s))" using set_keys by simp
    ultimately show ?thesis using dc by (simp only: set_eq_iff_mset_eq_distinct)
  qed
  moreover have "image_mset h (image_mset c_id (mset (candidates s)))
               = image_mset (spec_progress s) (mset (candidates s))"
    unfolding multiset.map_comp by (rule image_mset_cong) (simp add: h)
  ultimately show ?thesis
    unfolding key_eq by (simp only: mset_map)
qed

lemma candidates_progress_mset:
  assumes "distinct (map c_id (candidates s))" and "distinct (map d_id (districts s))"
  shows "mset (candidates_progress s) = image_mset (spec_progress s) (mset (candidates s))"
  unfolding candidates_progress_def using candidates_progress_unsorted[OF assms] by simp


lemma lex_sorted_wrt:
  assumes "sorted (map (\<lambda>r. (- int (n r), (k r :: 'k :: linorder))) rows)"
  shows "sorted_wrt (\<lambda>a b. n b < n a \<or> (n a = n b \<and> k a \<le> k b)) rows"
proof -
  from assms have "sorted_wrt (\<lambda>a b. (- int (n a), k a) \<le> (- int (n b), k b)) rows"
    by (simp add: sorted_wrt_map)
  then show ?thesis
    by (rule sorted_wrt_mono_rel[rotated]) (auto simp: less_eq_prod_def)
qed

lemma db_two_keys:
  "distinct (map c_id (candidates db_two))" "distinct (map d_id (districts db_two))"
  by (simp_all add: db_two_def db_empty_def)






text \<open>
  The list of \<^verbatim>\<open>server/app.js\<close> sorts the rows of the view by supporters alone. The
  sort is stable, so ties come in the order of the view: where the view lists the
  candidates by ascending id, the list has the same order as the one above.
\<close>

lemma insort_key_tie:
  assumes "sorted_wrt (\<lambda>a b. f a < f b \<or> (f a = f b \<and> g a \<le> g b)) ys"
    and "\<forall>y\<in>set ys. g x \<le> g y"
  shows "sorted_wrt (\<lambda>a b. f a < f b \<or> (f a = f b \<and> g a \<le> g b)) (insort_key f x ys)"
  using assms
proof (induction ys)
  case Nil
  then show ?case by simp
next
  case (Cons y ys)
  show ?case
  proof (cases "f x \<le> f y")
    case True
    have "f x < f z \<or> (f x = f z \<and> g x \<le> g z)" if "z \<in> set (y # ys)" for z
    proof -
      from that Cons.prems(1) have "f y \<le> f z" by auto
      with True have "f x \<le> f z" by simp
      with that Cons.prems(2) show ?thesis by auto
    qed
    with True Cons.prems(1) show ?thesis by simp
  next
    case False
    then have "f y < f x" by simp
    moreover have "sorted_wrt (\<lambda>a b. f a < f b \<or> (f a = f b \<and> g a \<le> g b)) (insort_key f x ys)"
      using Cons by simp
    ultimately show ?thesis using False Cons.prems(1) by (auto simp: set_insort_key)
  qed
qed

lemma sort_key_tie:
  assumes "sorted (map g xs)"
  shows "sorted_wrt (\<lambda>a b. f a < f b \<or> (f a = f b \<and> g a \<le> g b)) (sort_key f xs)"
  using assms
proof (induction xs)
  case Nil
  then show ?case by simp
next
  case (Cons x xs)
  then have "\<forall>y\<in>set (sort_key f xs). g x \<le> g y" by simp
  with Cons show ?case by (simp add: insort_key_tie)
qed

lemma get_candidates_app_order:
  assumes "sorted (map pr_id vw)"
  shows "\<exists>rows. get_candidates_app None vw = Json rows \<and> mset rows = mset vw
           \<and> sorted_wrt (\<lambda>a b. pr_supporters b < pr_supporters a
                             \<or> (pr_supporters a = pr_supporters b \<and> pr_id a \<le> pr_id b)) rows"
proof -
  have "sorted_wrt (\<lambda>a b. - int (pr_supporters a) < - int (pr_supporters b)
                     \<or> (- int (pr_supporters a) = - int (pr_supporters b) \<and> pr_id a \<le> pr_id b))
          (sort_key (\<lambda>r. - int (pr_supporters r)) vw)"
    using assms by (rule sort_key_tie)
  then have "sorted_wrt (\<lambda>a b. pr_supporters b < pr_supporters a
                             \<or> (pr_supporters a = pr_supporters b \<and> pr_id a \<le> pr_id b))
          (sort_key (\<lambda>r. - int (pr_supporters r)) vw)"
    by simp
  then show ?thesis by (simp add: get_candidates_app_def)
qed

subsection \<open>Deleting a district that a candidate references\<close>

lemma find_filtered_out:
  "find (\<lambda>d. Some (d_id d) = Some i) (filter (\<lambda>d. d_id d \<noteq> i) ds) = None"
  by (simp add: find_None_iff)

lemma spec_progress_deleted:
  assumes "c_district_id c = Some i"
  shows "spec_progress (s\<lparr>districts := filter (\<lambda>d. d_id d \<noteq> i) (districts s)\<rparr>) c
           = (spec_progress s c)\<lparr>pr_district := None\<rparr>"
  using assms find_filtered_out[of i "districts s"] by (simp add: spec_progress_def Let_def)

lemma pr_id_spec_progress: "pr_id (spec_progress s c) = c_id c"
  by (simp add: spec_progress_def Let_def)

text \<open>
  C8. Take a store with unique candidate and district ids and a candidate that
  references district \<open>i\<close>. A delete of district \<open>i\<close> that does not fail in the store
  changes the \<^verbatim>\<open>districts\<close> table only: the rows with id \<open>i\<close> are gone, every other
  table (candidates, assistants, voters, party) is as before, and the answer is
  \<^verbatim>\<open>{ok: true, deleted}\<close>. The candidate list read afterwards still holds the
  candidate's row, as it was but with the district label \<^verbatim>\<open>NULL\<close>, and every row of
  that list with the candidate's id has the label \<^verbatim>\<open>NULL\<close>.
\<close>

theorem C8_delete_district:
  assumes "distinct (map c_id (candidates s))" and "distinct (map d_id (districts s))"
    and "c \<in> set (candidates s)" and "c_district_id c = Some i"
  shows "delete_districts_app None s (Num i)
           = (s\<lparr>districts := filter (\<lambda>d. d_id d \<noteq> i) (districts s)\<rparr>,
              Json (length (filter (\<lambda>d. d_id d = i) (districts s))))
       \<and> (\<exists>rows. get_candidates_srv None (fst (delete_districts_app None s (Num i))) = Json rows
             \<and> (spec_progress s c)\<lparr>pr_district := None\<rparr> \<in> set rows
             \<and> (\<forall>r\<in>set rows. pr_id r = c_id c \<longrightarrow> pr_district r = None))"
proof -
  let ?s' = "s\<lparr>districts := filter (\<lambda>d. d_id d \<noteq> i) (districts s)\<rparr>"
  have del: "delete_districts_app None s (Num i)
           = (?s', Json (length (filter (\<lambda>d. d_id d = i) (districts s))))"
    by (simp add: delete_districts_app_def)
  have "distinct (map d_id (districts ?s'))"
    using assms(2) by (simp add: distinct_map_filter)
  with assms(1)
  have m: "mset (candidates_progress ?s') = image_mset (spec_progress ?s') (mset (candidates s))"
    using candidates_progress_mset[of ?s'] by simp
  then have st: "set (candidates_progress ?s') = spec_progress ?s' ` set (candidates s)"
    by (metis set_image_mset set_mset_mset)
  have a: "(spec_progress s c)\<lparr>pr_district := None\<rparr> \<in> set (candidates_progress ?s')"
    unfolding st using assms(3) spec_progress_deleted[OF assms(4), of s] by force
  have b: "pr_district r = None" if "r \<in> set (candidates_progress ?s')" "pr_id r = c_id c" for r
  proof -
    from that(1) st obtain c' where c': "c' \<in> set (candidates s)" "r = spec_progress ?s' c'"
      by auto
    with that(2) have "c_id c' = c_id c" by (simp add: pr_id_spec_progress)
    with assms(1,3) c'(1) have "c' = c" by (meson distinct_map inj_onD)
    with c'(2) spec_progress_deleted[OF assms(4), of s] show ?thesis by simp
  qed
  show ?thesis
    unfolding del using a b by (auto simp: get_candidates_srv_def)
qed

theorem C8_delete_district_witness:
  "delete_districts_app None db_two (Num 1)
     = (db_two\<lparr>districts := [\<lparr>d_id = 2, d_governorate_id = None, d_name = ''South'',
                               d_official_voters = 20\<rparr>]\<rparr>, Json 1)
   \<and> candidates (fst (delete_districts_app None db_two (Num 1))) = candidates db_two
   \<and> voters (fst (delete_districts_app None db_two (Num 1))) = voters db_two
   \<and> (\<exists>rows. get_candidates_srv None (fst (delete_districts_app None db_two (Num 1))) = Json rows
         \<and> \<lparr>pr_id = 1, pr_name = ''Ann'', pr_district = None, pr_target = 8,
             pr_supporters = 2, pr_pct = 25\<rparr> \<in> set rows)"
proof -
  let ?c = "\<lparr>c_id = 1, c_name = ''Ann'', c_district_id = Some 1, c_target = 8\<rparr>"
  have h3: "?c \<in> set (candidates db_two)" by (simp add: db_two_def db_empty_def)
  have h4: "c_district_id ?c = Some 1" by simp
  have e: "(spec_progress db_two ?c)\<lparr>pr_district := None\<rparr>
             = \<lparr>pr_id = 1, pr_name = ''Ann'', pr_district = None, pr_target = 8,
                 pr_supporters = 2, pr_pct = 25\<rparr>"
    by code_simp
  have d: "filter (\<lambda>d. d_id d \<noteq> 1) (districts db_two)
             = [\<lparr>d_id = 2, d_governorate_id = None, d_name = ''South'', d_official_voters = 20\<rparr>]"
    "length (filter (\<lambda>d. d_id d = 1) (districts db_two)) = 1"
    by (simp_all add: db_two_def db_empty_def)
  from C8_delete_district [OF db_two_keys h3 h4] show ?thesis
    unfolding e d by auto
qed

subsection \<open>The duplicate review\<close>

lemma group_by_set:
  "set (group_by key rows) = (\<lambda>k. (k, filter (\<lambda>r. key r = k) rows)) ` key ` set rows"
  by (simp add: group_by_def)

lemma group_by_distinct: "distinct (map fst (group_by key rows))"
  by (simp add: group_by_def comp_def)

lemma fuzzy_group:
  "n \<noteq> [] \<Longrightarrow>
   filter (\<lambda>v. (v_full_name v, v_dob v) = (n, Some d))
     (filter (\<lambda>v. v_full_name v \<noteq> [] \<and> v_dob v \<noteq> None) (voters s)) = same_person s n d"
  unfolding same_person_def filter_filter by (rule filter_cong) auto

lemma in_fuzzy_duplicates:
  "r \<in> set (fuzzy_duplicates s) \<longleftrightarrow>
     (\<exists>v\<in>set (filter (\<lambda>v. v_full_name v \<noteq> [] \<and> v_dob v \<noteq> None) (voters s)).
        1 < length (filter (\<lambda>r. (v_full_name r, v_dob r) = (v_full_name v, v_dob v))
                     (filter (\<lambda>v. v_full_name v \<noteq> [] \<and> v_dob v \<noteq> None) (voters s)))
        \<and> r = dup_of_group ((v_full_name v, v_dob v),
                   filter (\<lambda>r. (v_full_name r, v_dob r) = (v_full_name v, v_dob v))
                     (filter (\<lambda>v. v_full_name v \<noteq> [] \<and> v_dob v \<noteq> None) (voters s))))"
proof -
  let ?F = "filter (\<lambda>v. v_full_name v \<noteq> [] \<and> v_dob v \<noteq> None) (voters s)"
  let ?key = "\<lambda>v. (v_full_name v, v_dob v)"
  have "set (fuzzy_duplicates s)
      = dup_of_group ` {kg \<in> (\<lambda>k. (k, filter (\<lambda>r. ?key r = k) ?F)) ` ?key ` set ?F. 1 < length (snd kg)}"
    unfolding fuzzy_duplicates_def by (simp only: set_sort set_map set_filter group_by_set)
  then show ?thesis by (simp only: image_iff mem_Collect_eq) fastforce
qed

lemma set_fuzzy_duplicates:
  "set (fuzzy_duplicates s) = {dup_spec s n d | n d. n \<noteq> [] \<and> 1 < length (same_person s n d)}"
  (is "?L = ?R")
proof (intro equalityI subsetI)
  let ?F = "filter (\<lambda>v. v_full_name v \<noteq> [] \<and> v_dob v \<noteq> None) (voters s)"
  let ?key = "\<lambda>v. (v_full_name v, v_dob v)"
  fix r assume "r \<in> ?L"
  then obtain v where v: "v \<in> set ?F" and g: "1 < length (filter (\<lambda>r. ?key r = ?key v) ?F)"
    and r: "r = dup_of_group (?key v, filter (\<lambda>r. ?key r = ?key v) ?F)"
    unfolding in_fuzzy_duplicates by blast
  from v obtain d where d: "v_dob v = Some d" and n: "v_full_name v \<noteq> []" by auto
  have "filter (\<lambda>r. ?key r = ?key v) ?F = same_person s (v_full_name v) d"
    using fuzzy_group[OF n, of d s] d by simp
  with r g d n show "r \<in> ?R"
    by (auto simp: dup_of_group_def dup_spec_def)
next
  let ?F = "filter (\<lambda>v. v_full_name v \<noteq> [] \<and> v_dob v \<noteq> None) (voters s)"
  let ?key = "\<lambda>v. (v_full_name v, v_dob v)"
  fix r assume "r \<in> ?R"
  then obtain n d where r: "r = dup_spec s n d" and n: "n \<noteq> []" and g: "1 < length (same_person s n d)"
    by blast
  from g obtain v where v: "v \<in> set (same_person s n d)"
    by (cases "same_person s n d") auto
  then have vF: "v \<in> set ?F" and k: "?key v = (n, Some d)"
    using n by (auto simp: same_person_def)
  have "filter (\<lambda>r. ?key r = ?key v) ?F = same_person s n d"
    using fuzzy_group[OF n, of d s] k by simp
  with r g vF k have "r = dup_of_group (?key v, filter (\<lambda>r. ?key r = ?key v) ?F)"
    "1 < length (filter (\<lambda>r. ?key r = ?key v) ?F)"
    by (auto simp: dup_of_group_def dup_spec_def)
  with vF show "r \<in> ?L"
    unfolding in_fuzzy_duplicates by blast
qed

lemma fuzzy_duplicates_distinct:
  "distinct (map (\<lambda>r. (fd_full_name r, fd_dob r)) (fuzzy_duplicates s))"
proof -
  let ?G = "group_by (\<lambda>v. (v_full_name v, v_dob v))
                (filter (\<lambda>v. v_full_name v \<noteq> [] \<and> v_dob v \<noteq> None) (voters s))"
  let ?H = "filter (\<lambda>kg. 1 < length (snd kg)) ?G"
  have "(\<lambda>r. (fd_full_name r, fd_dob r)) \<circ> dup_of_group = fst"
    by (auto simp: dup_of_group_def fun_eq_iff)
  then have eq: "map (\<lambda>r. (fd_full_name r, fd_dob r)) (map dup_of_group ?H) = map fst ?H"
    by (simp only: map_map)
  have "distinct (map fst ?H)"
    using group_by_distinct[of "\<lambda>v. (v_full_name v, v_dob v)"] by (rule distinct_map_filter)
  then have d: "distinct (map (\<lambda>r. (fd_full_name r, fd_dob r)) (map dup_of_group ?H))"
    unfolding eq .
  have "mset (fuzzy_duplicates s) = mset (map dup_of_group ?H)"
    unfolding fuzzy_duplicates_def by (rule mset_sort)
  then have m: "mset (map (\<lambda>r. (fd_full_name r, fd_dob r)) (fuzzy_duplicates s))
               = mset (map (\<lambda>r. (fd_full_name r, fd_dob r)) (map dup_of_group ?H))"
    by (simp only: mset_map)
  from mset_eq_imp_distinct_iff[OF m] d show ?thesis by blast
qed

lemma fuzzy_duplicates_sorted:
  "sorted_wrt (\<lambda>a b. fd_cnt b < fd_cnt a \<or> (fd_cnt a = fd_cnt b \<and> fd_full_name a \<le> fd_full_name b))
     (fuzzy_duplicates s)"
  unfolding fuzzy_duplicates_def
  by (rule lex_sorted_wrt[where n = fd_cnt and k = fd_full_name]) (rule sorted_sort_key)

text \<open>
  C3, as the claim has it, fails: when one candidate holds both rows of a repeated
  person, \<^verbatim>\<open>candidate_ids\<close> lists that candidate twice.
\<close>

theorem C3_counterexample:
  "get_fuzzy_duplicates_app None db_twice =
     Json [\<lparr>fd_full_name = ''A'', fd_dob = Some ''1990-01-01'', fd_cnt = 2,
             fd_candidate_ids = ''1,1''\<rparr>]
   \<and> ''1,1'' = group_concat [1, 1]"
  by code_simp

text \<open>
  C3, amended. When its query does not fail, the duplicate review returns exactly one
  row for every pair of a non-empty name and a date of birth that more than one voter
  row carries, and no other row; rows with an empty name or without a date of birth
  are left out. The row holds the number of those voter rows, and its
  \<^verbatim>\<open>candidate_ids\<close> lists the candidate id of each of them, one entry per voter row
  (so a candidate holding several of them is listed several times). The rows are
  ordered by count descending, then name ascending.
\<close>

theorem C3_fuzzy_duplicates:
  "\<exists>rows. get_fuzzy_duplicates_app None s = Json rows
     \<and> distinct (map (\<lambda>r. (fd_full_name r, fd_dob r)) rows)
     \<and> set rows = {dup_spec s n d | n d. n \<noteq> [] \<and> 1 < length (same_person s n d)}
     \<and> sorted_wrt (\<lambda>a b. fd_cnt b < fd_cnt a
                       \<or> (fd_cnt a = fd_cnt b \<and> fd_full_name a \<le> fd_full_name b)) rows"
  using fuzzy_duplicates_distinct[of s] set_fuzzy_duplicates[of s] fuzzy_duplicates_sorted[of s]
  by (simp add: get_fuzzy_duplicates_app_def)

theorem C3_fuzzy_duplicates_witness:
  "get_fuzzy_duplicates_app None db_two =
     Json [\<lparr>fd_full_name = ''A'', fd_dob = Some ''1990-01-01'', fd_cnt = 2,
             fd_candidate_ids = ''1,3''\<rparr>]
   \<and> set (fuzzy_duplicates db_two)
       = {dup_spec db_two n d | n d. n \<noteq> [] \<and> 1 < length (same_person db_two n d)}"
proof -
  have e: "get_fuzzy_duplicates_app None db_two =
     Json [\<lparr>fd_full_name = ''A'', fd_dob = Some ''1990-01-01'', fd_cnt = 2,
             fd_candidate_ids = ''1,3''\<rparr>]"
    by code_simp
  from C3_fuzzy_duplicates [of db_two] e show ?thesis
    by (auto simp: get_fuzzy_duplicates_app_def)
qed

subsection \<open>The district distribution\<close>

lemma party_districts_sorted:
  "sorted_wrt (\<lambda>a b. dr_supporters b < dr_supporters a
                 \<or> (dr_supporters a = dr_supporters b
                     \<and> dr_official_voters b \<le> dr_official_voters a))
     (party_districts s)"
proof -
  have "sorted_wrt (\<lambda>a b. dr_supporters b < dr_supporters a
                 \<or> (dr_supporters a = dr_supporters b
                     \<and> - dr_official_voters a \<le> - dr_official_voters b))
     (party_districts s)"
    unfolding party_districts_def
    by (rule lex_sorted_wrt[where n = dr_supporters and k = "\<lambda>r. - dr_official_voters r"])
       (rule sorted_sort_key)
  then show ?thesis by simp
qed

lemma candidate_districts_sorted:
  "sorted_wrt (\<lambda>a b. dr_supporters b \<le> dr_supporters a) (candidate_districts s i)"
proof -
  have "sorted (map (\<lambda>r. - int (dr_supporters r)) (candidate_districts s i))"
    unfolding candidate_districts_def by (rule sorted_sort_key)
  then show ?thesis by (simp add: sorted_wrt_map)
qed

lemma group_by_blocks:
  assumes dg: "distinct (map g xs)"
    and key: "\<And>x r. x \<in> set xs \<Longrightarrow> r \<in> set (blk x) \<Longrightarrow> key r = g x"
    and ne: "\<And>x. x \<in> set xs \<Longrightarrow> blk x \<noteq> []"
  shows "mset (map snd (group_by key (concat (map blk xs)))) = image_mset blk (mset xs)"
proof -
  let ?J = "concat (map blk xs)"
  let ?keys = "sort (remdups (map key ?J))"
  have grp: "filter (\<lambda>r. key r = g x) ?J = blk x" if "x \<in> set xs" for x
    using filter_concat_block[OF dg that, of blk key] key by blast
  have set_keys: "set ?keys = g ` set xs"
  proof -
    have "key ` set ?J = g ` set xs"
    proof (intro equalityI subsetI)
      fix k assume "k \<in> key ` set ?J"
      then obtain x r where "x \<in> set xs" "r \<in> set (blk x)" "k = key r" by auto
      with key[of x r] show "k \<in> g ` set xs" by auto
    next
      fix k assume "k \<in> g ` set xs"
      then obtain x where x: "x \<in> set xs" "k = g x" by blast
      with ne[of x] obtain r where r: "r \<in> set (blk x)" by (cases "blk x") auto
      with x have "r \<in> set ?J" by auto
      moreover have "key r = k" using key[OF x(1) r] x(2) by simp
      ultimately show "k \<in> key ` set ?J" by blast
    qed
    then show ?thesis by simp
  qed
  define h where "h k = blk (the (find (\<lambda>x. g x = k) xs))" for k
  have h: "h (g x) = blk x" if "x \<in> set xs" for x
    using find_distinct_key[OF dg that] by (simp add: h_def)
  have "map snd (group_by key ?J) = map (\<lambda>k. filter (\<lambda>r. key r = k) ?J) ?keys"
    by (simp add: group_by_def comp_def)
  also have "\<dots> = map h ?keys"
  proof (rule map_cong[OF refl])
    fix k assume "k \<in> set ?keys"
    with set_keys obtain x where x: "x \<in> set xs" "k = g x" by auto
    then show "filter (\<lambda>r. key r = k) ?J = h k" using grp[OF x(1)] h[OF x(1)] by simp
  qed
  finally have "mset (map snd (group_by key ?J)) = image_mset h (mset ?keys)"
    by (simp only: mset_map)
  moreover have "mset ?keys = mset (map g xs)"
  proof -
    have "distinct ?keys" by simp
    moreover have "set ?keys = set (map g xs)" using set_keys by simp
    ultimately show ?thesis using dg by (simp only: set_eq_iff_mset_eq_distinct)
  qed
  moreover have "image_mset h (image_mset g (mset xs)) = image_mset blk (mset xs)"
    unfolding multiset.map_comp by (rule image_mset_cong) (simp add: h)
  ultimately show ?thesis by (simp only: mset_map)
qed

lemma mset_map_filter_Some:
  assumes "mset L = image_mset blk (mset xs)" and "\<And>x. x \<in> set xs \<Longrightarrow> f (blk x) = Some (h x)"
  shows "mset (List.map_filter f L) = image_mset h (mset xs)"
proof -
  have "mset (List.map_filter f L) = image_mset (the \<circ> f) (filter_mset (\<lambda>x. f x \<noteq> None) (mset L))"
    by (simp add: List.map_filter_def comp_def)
  also have "filter_mset (\<lambda>x. f x \<noteq> None) (mset L) = mset L"
    unfolding assms(1) using assms(2) by (auto simp: filter_mset_eq_conv)
  also have "image_mset (the \<circ> f) (mset L) = image_mset h (mset xs)"
    unfolding assms(1) multiset.map_comp by (rule image_mset_cong) (simp add: assms(2))
  finally show ?thesis .
qed

lemma district_of_block: "district_of_group (district_block on vs d) = Some (spec_district on vs d)"
  by (cases "filter (on d) vs")
     (auto simp: district_block_def district_of_group_def spec_district_def count_col_def)

lemma district_groups:
  assumes "distinct (map d_id ds)"
  shows "mset (List.map_filter district_of_group
                 (map snd (group_by (\<lambda>(d, v). d_id d) (left_join ds vs on))))
       = image_mset (spec_district on vs) (mset ds)"
proof -
  have "district_block on vs = (\<lambda>x. case filter (on x) vs of [] \<Rightarrow> [(x, None)]
                | m # ms \<Rightarrow> map (\<lambda>y. (x, Some y)) (m # ms))"
    by (simp add: fun_eq_iff district_block_def)
  then have J: "left_join ds vs on = concat (map (district_block on vs) ds)"
    by (simp only: left_join_def)
  have k: "(\<lambda>(d, v). d_id d) = (\<lambda>r :: district \<times> voter option. d_id (fst r))"
    by (auto simp: fun_eq_iff)
  have "mset (map snd (group_by (\<lambda>r. d_id (fst r)) (concat (map (district_block on vs) ds))))
          = image_mset (district_block on vs) (mset ds)"
  proof (rule group_by_blocks[OF assms])
    fix x r assume "r \<in> set (district_block on vs x)"
    then show "d_id (fst r) = d_id x"
      by (auto simp: district_block_def split: list.splits)
  next
    fix x show "district_block on vs x \<noteq> []"
      by (auto simp: district_block_def split: list.splits)
  qed
  then show ?thesis
    unfolding J k by (rule mset_map_filter_Some) (rule district_of_block)
qed

lemma party_districts_rows:
  assumes "distinct (map d_id (districts s))"
  shows "mset (party_districts s)
       = image_mset (spec_district (\<lambda>d v. v_district_id v = Some (d_id d)) (voters s))
           (mset (districts s))"
  unfolding party_districts_def using district_groups[OF assms] by simp

lemma candidate_districts_rows:
  assumes "distinct (map d_id (districts s))"
  shows "mset (candidate_districts s i)
       = image_mset (spec_district (\<lambda>d v. v_district_id v = Some (d_id d)
                                           \<and> id_is i (v_candidate_id v)) (voters s))
           (mset (districts s))"
  unfolding candidate_districts_def using district_groups[OF assms] by simp


text \<open>
  C6 fails on the candidate-scoped query, whose \<^verbatim>\<open>ORDER BY\<close> names the supporters
  only. With the districts North (10 official voters) and South (20) and no voter in
  either, both have 0 supporters: the party-wide query lists South first, as the claim
  asks, and the \<open>byDistrict\<close> of the candidate view lists North first.
\<close>

theorem C6_candidate_scoped_tie:
  "get_party_districts_app None db_two =
     Json [\<lparr>dr_district_id = 2, dr_district = ''South'', dr_official_voters = 20,
             dr_supporters = 0\<rparr>,
           \<lparr>dr_district_id = 1, dr_district = ''North'', dr_official_voters = 10,
             dr_supporters = 0\<rparr>]
   \<and> map_option va_byDistrict
       (case get_candidate_app (\<lambda>s. []) None None None None None db_two (Num 1) of
          Json v \<Rightarrow> Some v | Err c m \<Rightarrow> None) =
     Some [\<lparr>dr_district_id = 1, dr_district = ''North'', dr_official_voters = 10,
             dr_supporters = 0\<rparr>,
           \<lparr>dr_district_id = 2, dr_district = ''South'', dr_official_voters = 20,
             dr_supporters = 0\<rparr>]"
  by code_simp

subsection \<open>The candidate full view and store errors\<close>

lemma left_join_fst: "fst ` set (left_join xs ys on) = set xs"
proof -
  have "fst ` set (case filter (on x) ys of [] \<Rightarrow> [(x, None)]
                   | m # ms \<Rightarrow> map (\<lambda>y. (x, Some y)) (m # ms)) = {x}" for x
    by (cases "filter (on x) ys") (auto simp: image_iff)
  then show ?thesis
    unfolding left_join_def by (induction xs) (simp_all add: image_Un)
qed

lemma sel_candidate_None:
  "sel_candidate s i = None \<longleftrightarrow> \<not> (\<exists>c\<in>set (candidates s). id_is i (c_id c))"
proof -
  let ?J = "left_join (candidates s) (districts s) (\<lambda>c d. Some (d_id d) = c_district_id c)"
  have "sel_candidate s i = None \<longleftrightarrow> \<not> (\<exists>x\<in>set ?J. id_is i (c_id (fst x)))"
    by (auto simp: sel_candidate_def find_None_iff)
  also have "\<dots> \<longleftrightarrow> \<not> (\<exists>c\<in>fst ` set ?J. id_is i (c_id c))"
    by (simp only: bex_simps(7))
  finally show ?thesis by (simp only: left_join_fst)
qed

lemma get_candidate_srv_404:
  "status (get_candidate_srv f1 f2 f3 s i) = 404
     \<longleftrightarrow> f1 = None \<and> \<not> (\<exists>c\<in>set (candidates s). id_is i (c_id c))"
  unfolding sel_candidate_None[symmetric]
  by (auto simp: get_candidate_srv_def split: option.splits)

lemma get_candidate_srv_store_error:
  "f1 = Some m \<or> (sel_candidate s i \<noteq> None \<and> f1 = None \<and> (f2 = Some m \<or> (f2 = None \<and> f3 = Some m)))
     \<Longrightarrow> get_candidate_srv f1 f2 f3 s i = Err 500 m"
  by (auto simp: get_candidate_srv_def split: option.splits)

text \<open>
  C7 fails on \<^verbatim>\<open>server/app.js\<close>: its first callback answers a store error like a
  missing row. Candidate 1 exists; when the first query fails, the answer is 404
  \<^verbatim>\<open>Candidate not found\<close> and the error's message is dropped. The authenticated
  server answers the same failure with 500 and the message.
\<close>

theorem C7_store_error_as_404:
  "sel_candidate db_two (Num 1)
     = Some (\<lparr>c_id = 1, c_name = ''Ann'', c_district_id = Some 1, c_target = 8\<rparr>, Some ''North'')
   \<and> get_candidate_app (\<lambda>s. []) (Some ''SQLITE_BUSY: database is locked'') None None None None
       db_two (Num 1) = Err 404 ''Candidate not found''
   \<and> get_candidate_srv (Some ''SQLITE_BUSY: database is locked'') None None db_two (Num 1)
       = Err 500 ''SQLITE_BUSY: database is locked''"
  by code_simp

subsection \<open>Editing a voter's electoral card\<close>

lemma sel_card_other_Some:
  "(sel_card_other s ec (Num n) \<noteq> None)
     \<longleftrightarrow> (\<exists>v\<in>set (voters s). v_electoral_card v = Some ec \<and> v_id v \<noteq> n)"
  by (auto simp: sel_card_other_def find_None_iff)

lemma no_fields_card: "str_or_null (b_electoral_card b) = Some ec \<Longrightarrow> \<not> no_fields b"
  by (auto simp: no_fields_def)

lemma run_update_ok:
  assumes "\<not> no_fields b" and "null_violation b = None"
  shows "run_update None s (Num n) b
           = (s\<lparr>voters := map (\<lambda>v. if v_id v = n then update_row b v else v) (voters s)\<rparr>,
              Json (length (filter (\<lambda>v. v_id v = n) (voters s))))"
proof (cases "filter (\<lambda>v. v_id v = n) (voters s) = []")
  case True
  then have "\<forall>v\<in>set (voters s). v_id v \<noteq> n" by (simp add: filter_empty_conv)
  then have "map (\<lambda>v. if v_id v = n then update_row b v else v) (voters s) = voters s"
    by (induction "voters s") (auto simp: map_idI)
  with True assms show ?thesis by (simp add: run_update_def)
next
  case False
  with assms show ?thesis by (simp add: run_update_def)
qed

lemma sel_card_other_NaN: "sel_card_other s ec NaN = None"
  by (simp add: sel_card_other_def find_None_iff)

lemma run_update_NaN: "\<not> no_fields b \<Longrightarrow> run_update None s NaN b = (s, Json 0)"
  by (simp add: run_update_def)

text \<open>
  C9, as the claim has it, fails for an \<^verbatim>\<open>:id\<close> that is no number, such as
  \<^verbatim>\<open>PUT /api/voters/abc\<close>. The id is \<open>NaN\<close> and is bound as \<^verbatim>\<open>NULL\<close>, so
  \<^verbatim>\<open>id<>?\<close> holds for no row and the lookup finds nothing: voter 1 holds the card
  \<^verbatim>\<open>EC-1\<close>, and the update that supplies \<^verbatim>\<open>EC-1\<close> is answered with
  \<^verbatim>\<open>{ok: true, changes: 0}\<close> and not with 400.
\<close>

theorem C9_counterexample:
  "voters db_one_voter = [voter_A1]
   \<and> v_electoral_card voter_A1 = Some ''EC-1''
   \<and> str_or_null (b_electoral_card body_card_only) = Some ''EC-1''
   \<and> put_voters_srv None None db_one_voter NaN body_card_only = (db_one_voter, Json 0)"
  by (simp add: db_one_voter_def db_empty_def voter_A1_def body_card_only_def put_voters_srv_def
        sel_card_other_def run_update_def no_fields_def)

text \<open>
  C9, amended. Take an update that supplies a non-empty \<^verbatim>\<open>electoral_card\<close> and whose
  duplicate lookup does not fail in the store. When the \<^verbatim>\<open>:id\<close> is a number \<open>n\<close>: if
  a voter row with another id holds that card, the answer is 400
  \<^verbatim>\<open>Electoral card already used\<close> and the store is unchanged, whatever the update
  itself would do; if no row with another id holds it (the voter's own row may), the
  lookup lets the update through: when the update sets no \<^verbatim>\<open>NOT NULL\<close> column to
  \<^verbatim>\<open>NULL\<close> and does not fail in the store, the rows with id \<open>n\<close> are rewritten with the
  body's fields, carry the card afterwards, and the answer is
  \<^verbatim>\<open>{ok: true, changes}\<close>. When the \<^verbatim>\<open>:id\<close> is no number, the lookup finds no row
  whoever holds the card, and an update that does not fail in the store changes
  nothing and is answered with \<^verbatim>\<open>{ok: true, changes: 0}\<close>.
\<close>

theorem C9_update_electoral_card:
  assumes "str_or_null (b_electoral_card b) = Some ec"
  shows "((\<exists>v\<in>set (voters s). v_electoral_card v = Some ec \<and> v_id v \<noteq> n) \<longrightarrow>
            put_voters_srv None f_upd s (Num n) b = (s, Err 400 ''Electoral card already used''))
       \<and> (\<not> (\<exists>v\<in>set (voters s). v_electoral_card v = Some ec \<and> v_id v \<noteq> n)
            \<and> null_violation b = None \<longrightarrow>
            put_voters_srv None None s (Num n) b
              = (s\<lparr>voters := map (\<lambda>v. if v_id v = n then update_row b v else v) (voters s)\<rparr>,
                 Json (length (filter (\<lambda>v. v_id v = n) (voters s))))
            \<and> (\<forall>v. v_electoral_card (update_row b v) = Some ec))
       \<and> put_voters_srv None None s NaN b = (s, Json 0)"
proof (intro conjI impI)
  assume "\<exists>v\<in>set (voters s). v_electoral_card v = Some ec \<and> v_id v \<noteq> n"
  then have "sel_card_other s ec (Num n) \<noteq> None" by (simp only: sel_card_other_Some)
  with assms show "put_voters_srv None f_upd s (Num n) b = (s, Err 400 ''Electoral card already used'')"
    by (auto simp: put_voters_srv_def)
next
  assume a: "\<not> (\<exists>v\<in>set (voters s). v_electoral_card v = Some ec \<and> v_id v \<noteq> n)
            \<and> null_violation b = None"
  then have "sel_card_other s ec (Num n) = None" using sel_card_other_Some[of s ec n] by blast
  with assms have "put_voters_srv None None s (Num n) b = run_update None s (Num n) b"
    by (simp add: put_voters_srv_def)
  with a show "put_voters_srv None None s (Num n) b
              = (s\<lparr>voters := map (\<lambda>v. if v_id v = n then update_row b v else v) (voters s)\<rparr>,
                 Json (length (filter (\<lambda>v. v_id v = n) (voters s))))"
    using run_update_ok[OF no_fields_card[OF assms], of s n] by simp
  show "\<forall>v. v_electoral_card (update_row b v) = Some ec"
    using assms by (cases "b_electoral_card b") (auto simp: update_row_def set_str_def)
next
  show "put_voters_srv None None s NaN b = (s, Json 0)"
    using assms run_update_NaN[OF no_fields_card[OF assms], of s]
    by (simp add: put_voters_srv_def sel_card_other_NaN)
qed

theorem C9_update_electoral_card_witness:
  "put_voters_srv None None db_two (Num 4) body_card_only
     = (db_two, Err 400 ''Electoral card already used'')
   \<and> put_voters_srv None None db_one_voter (Num 1) body_card_only = (db_one_voter, Json 1)
   \<and> put_voters_srv None None db_two NaN body_card_only = (db_two, Json 0)"
proof -
  have h: "str_or_null (b_electoral_card body_card_only) = Some ''EC-1''"
    by (simp add: body_card_only_def)
  have d: "\<exists>v\<in>set (voters db_two). v_electoral_card v = Some ''EC-1'' \<and> v_id v \<noteq> 4"
    by (simp add: db_two_def db_empty_def voter_A1_def)
  have n: "\<not> (\<exists>v\<in>set (voters db_one_voter). v_electoral_card v = Some ''EC-1'' \<and> v_id v \<noteq> 1)
           \<and> null_violation body_card_only = None"
    by (simp add: db_one_voter_def db_empty_def voter_A1_def null_violation_def body_card_only_def)
  have u: "db_one_voter\<lparr>voters := map (\<lambda>v. if v_id v = 1 then update_row body_card_only v else v)
                                    (voters db_one_voter)\<rparr> = db_one_voter"
    "length (filter (\<lambda>v. v_id v = 1) (voters db_one_voter)) = 1"
    by (simp_all add: db_one_voter_def db_empty_def voter_A1_def update_row_def set_str_def
          set_int_def body_card_only_def)
  from C9_update_electoral_card [OF h, of db_two 4 None] d
  have "put_voters_srv None None db_two (Num 4) body_card_only
     = (db_two, Err 400 ''Electoral card already used'')
     \<and> put_voters_srv None None db_two NaN body_card_only = (db_two, Json 0)" by blast
  moreover from C9_update_electoral_card [OF h, of db_one_voter 1 None] n
  have "put_voters_srv None None db_one_voter (Num 1) body_card_only = (db_one_voter, Json 1)"
    unfolding u by blast
  ultimately show ?thesis by blast
qed

subsection \<open>Numbers of binary64 and \<^verbatim>\<open>parseInt\<close>\<close>

lemma round_div_1: "round_div p 1 = p"
  by (simp add: round_div_def)

lemma ilog2_le: "ilog2 p q \<le> bitlen p - bitlen q"
  by (simp add: ilog2_def Let_def)

text \<open>
  \<open>round_div\<close> is within a half of the quotient, and \<open>ilog2\<close> is the whole part of
  its binary logarithm. So the value \<open>m * 2 ^ e\<close> of \<open>b64 p q\<close> is within half a unit
  of its last place \<open>2 ^ e\<close> of \<open>p / q\<close>, where \<open>e\<close> is 52 below the binary logarithm
  of \<open>p / q\<close>, and -1074 at least.
\<close>

lemma round_div_nearest:
  assumes "0 < q"
  shows "\<bar>2 * (round_div p q * q - p)\<bar> \<le> q"
proof -
  have p: "p = (p div q) * q + p mod q" by simp
  have r: "0 \<le> p mod q" "p mod q < q" using assms by simp_all
  have a: "(p div q) * q - p = - (p mod q)" using p by linarith
  have b: "(p div q + 1) * q - p = q - p mod q" using p by (simp add: algebra_simps)
  consider (lo) "2 * (p mod q) < q" | (hi) "q < 2 * (p mod q)" | (eq) "2 * (p mod q) = q"
    by linarith
  then show ?thesis
  proof cases
    case lo
    then have "round_div p q = p div q" by (simp add: round_div_def Let_def)
    then show ?thesis using a r lo by simp
  next
    case hi
    then have "round_div p q = p div q + 1" by (simp add: round_div_def Let_def)
    then show ?thesis using b r hi by simp
  next
    case eq
    then have "round_div p q = p div q \<or> round_div p q = p div q + 1"
      by (simp add: round_div_def Let_def)
    then show ?thesis using a b r eq by auto
  qed
qed

lemma pow2_powi: "pow2 k = 2 powi k"
  by (simp add: pow2_def power_int_def inverse_eq_divide power_one_over)

lemma pow2_pos: "0 < pow2 k"
  by (simp add: pow2_powi)

lemma pow2_add: "pow2 (a + b) = pow2 a * pow2 b"
  by (simp add: pow2_powi power_int_add)

lemma pow2_nat: "pow2 (int n) = 2 ^ n"
  by (simp add: pow2_def)

lemma ilog2_test:
  assumes "0 < p" "0 < q"
  shows "(if 0 \<le> k then q * 2 ^ nat k \<le> p else q \<le> p * 2 ^ nat (- k))
         \<longleftrightarrow> pow2 k * of_int q \<le> of_int p"
proof (cases "0 \<le> k")
  case True
  have "(q * 2 ^ nat k \<le> p) \<longleftrightarrow> (of_int (q * 2 ^ nat k) \<le> (of_int p :: rat))"
    by (simp only: of_int_le_iff)
  then show ?thesis using True by (simp add: pow2_def mult.commute)
next
  case False
  have "(q \<le> p * 2 ^ nat (- k)) \<longleftrightarrow> ((of_int q :: rat) \<le> of_int (p * 2 ^ nat (- k)))"
    by (simp only: of_int_le_iff)
  then show ?thesis using False by (simp add: pow2_def field_simps)
qed

lemma bitlen_pow2_bounds:
  assumes "0 < x"
  shows "pow2 (bitlen x - 1) \<le> of_int x \<and> of_int x < pow2 (bitlen x)"
proof -
  from bitlen_bounds[OF assms] have b: "2 ^ nat (bitlen x - 1) \<le> x" "x < 2 ^ nat (bitlen x)"
    by simp_all
  have ge: "1 \<le> bitlen x" using assms by (simp add: bitlen_alt_def)
  have "(of_int (2 ^ nat (bitlen x - 1)) :: rat) \<le> of_int x" using b(1) by (simp only: of_int_le_iff)
  moreover have "(of_int x :: rat) < of_int (2 ^ nat (bitlen x))" using b(2) by (simp only: of_int_less_iff)
  ultimately show ?thesis using ge bitlen_nonneg[of x] by (simp add: pow2_def)
qed

lemma ilog2_bounds:
  assumes "0 < p" "0 < q"
  shows "pow2 (ilog2 p q) * of_int q \<le> of_int p \<and> of_int p < pow2 (ilog2 p q + 1) * of_int q"
proof -
  define k where "k = bitlen p - bitlen q"
  note bp = bitlen_pow2_bounds[OF assms(1)] and bq = bitlen_pow2_bounds[OF assms(2)]
  have qpos: "(0::rat) < of_int q" using assms(2) by simp
  have up: "of_int p < pow2 (k + 1) * of_int q"
  proof -
    have "pow2 (bitlen p) = pow2 (k + 1) * pow2 (bitlen q - 1)"
      unfolding pow2_add[symmetric] k_def by simp
    also have "\<dots> \<le> pow2 (k + 1) * of_int q"
      using bq pow2_pos[of "k + 1"] by (simp add: mult_left_mono)
    finally show ?thesis using bp by simp
  qed
  have lo: "pow2 (k - 1) * of_int q \<le> of_int p"
  proof -
    have "pow2 (k - 1) * of_int q \<le> pow2 (k - 1) * pow2 (bitlen q)"
      using bq pow2_pos[of "k - 1"] by (simp add: mult_left_mono less_imp_le)
    also have "\<dots> = pow2 (bitlen p - 1)"
      unfolding pow2_add[symmetric] k_def by simp
    finally show ?thesis using bp by simp
  qed
  have il: "ilog2 p q = (if pow2 k * of_int q \<le> (of_int p :: rat) then k else k - 1)"
    unfolding ilog2_def Let_def k_def[symmetric] using ilog2_test[OF assms, of k] by simp
  show ?thesis
  proof (cases "pow2 k * of_int q \<le> (of_int p :: rat)")
    case True
    with il up show ?thesis by simp
  next
    case False
    with il lo show ?thesis by simp
  qed
qed

lemma abs_quot_le:
  assumes "(0::rat) < q" and "\<bar>2 * x\<bar> \<le> q * c"
  shows "\<bar>x / q\<bar> \<le> c / 2"
proof -
  have "2 * \<bar>x\<bar> \<le> q * c" using assms(2) by (simp add: abs_mult)
  then have "\<bar>x\<bar> \<le> q * (c / 2)" by simp
  then have "\<bar>x\<bar> / q \<le> q * (c / 2) / q" using assms(1) by (simp only: divide_right_mono less_imp_le)
  then show ?thesis using assms(1) by (simp add: abs_divide)
qed

lemma b64_accuracy:
  assumes "0 < p" "0 < q" and "b64 p q = Some (m, e)"
  shows "e = max (ilog2 p q - 52) (- 1074)
         \<and> \<bar>of_int m * pow2 e - of_int p / of_int q\<bar> \<le> pow2 e / 2"
proof -
  have qpos: "(0::rat) < of_int q" using assms(2) by simp
  from assms have e: "e = max (ilog2 p q - 52) (- 1074)"
    by (auto simp: b64_def Let_def split: if_splits)
  show ?thesis
  proof (cases "0 \<le> e")
    case True
    from assms have m: "m = round_div p (q * 2 ^ nat e)"
      using True e by (auto simp: b64_def Let_def split: if_splits)
    have "0 < q * 2 ^ nat e" using assms(2) by simp
    from round_div_nearest[OF this, of p]
    have "\<bar>2 * (m * (q * 2 ^ nat e) - p)\<bar> \<le> q * 2 ^ nat e" unfolding m .
    then have "(of_int \<bar>2 * (m * (q * 2 ^ nat e) - p)\<bar> :: rat) \<le> of_int (q * 2 ^ nat e)"
      by (simp only: of_int_le_iff)
    then have "\<bar>2 * (of_int m * (of_int q * 2 ^ nat e) - of_int p)\<bar> \<le> (of_int q * 2 ^ nat e :: rat)"
      by simp
    from abs_quot_le[OF qpos this]
    have A: "\<bar>(of_int m * (of_int q * 2 ^ nat e) - of_int p) / of_int q\<bar> \<le> (2 ^ nat e / 2 :: rat)" .
    have B: "(of_int m * (of_int q * 2 ^ nat e) - of_int p) / of_int q
                     = (of_int m * 2 ^ nat e - of_int p / of_int q :: rat)"
      using qpos by (simp add: field_simps)
    have P: "pow2 e = 2 ^ nat e" using True by (simp add: pow2_def)
    from A have "\<bar>of_int m * pow2 e - of_int p / of_int q\<bar> \<le> pow2 e / 2" unfolding B P .
    with e show ?thesis by (rule conjI)
  next
    case False
    from assms have m: "m = round_div (p * 2 ^ nat (- e)) q"
      using False e by (auto simp: b64_def Let_def split: if_splits)
    from round_div_nearest[OF assms(2), of "p * 2 ^ nat (- e)"]
    have "\<bar>2 * (m * q - p * 2 ^ nat (- e))\<bar> \<le> q" unfolding m .
    then have "(of_int \<bar>2 * (m * q - p * 2 ^ nat (- e))\<bar> :: rat) \<le> of_int q"
      by (simp only: of_int_le_iff)
    then have "\<bar>2 * ((of_int m * of_int q - of_int p * 2 ^ nat (- e)) / 2 ^ nat (- e))\<bar>
                 \<le> (of_int q * (1 / 2 ^ nat (- e)) :: rat)"
      by (simp add: abs_mult abs_divide divide_right_mono)
    from abs_quot_le[OF qpos this]
    have A: "\<bar>(of_int m * of_int q - of_int p * 2 ^ nat (- e)) / 2 ^ nat (- e) / of_int q\<bar>
            \<le> (1 / 2 ^ nat (- e) / 2 :: rat)" .
    have B: "(of_int m * of_int q - of_int p * 2 ^ nat (- e)) / 2 ^ nat (- e) / of_int q
                     = (of_int m * (1 / 2 ^ nat (- e)) - of_int p / of_int q :: rat)"
      using qpos by (simp add: field_simps)
    have P: "pow2 e = 1 / 2 ^ nat (- e)" using False by (simp add: pow2_def)
    from A have "\<bar>of_int m * pow2 e - of_int p / of_int q\<bar> \<le> pow2 e / 2" unfolding B P .
    with e show ?thesis by (rule conjI)
  qed
qed

text \<open>A whole number below \<open>2 ^ 53\<close> is a binary64 value.\<close>

lemma b64_int_exact:
  assumes "0 \<le> n" "n < 2 ^ 53"
  shows "b64_int n = Some n"
proof (cases "n = 0")
  case True
  then show ?thesis by (simp add: b64_int_def b64_def)
next
  case False
  have "bitlen n \<le> 53" using assms(2) by (simp add: bitlen_le_iff_power)
  moreover have "bitlen 1 = 1" by (simp add: bitlen_alt_def)
  ultimately have e: "max (ilog2 n 1 - 52) (- 1074) \<le> 0"
    using ilog2_le[of n 1] by simp
  show ?thesis
  proof (cases "max (ilog2 n 1 - 52) (- 1074) = 0")
    case True
    with False show ?thesis by (simp add: b64_int_def b64_def Let_def round_div_1)
  next
    case F2: False
    with e have "max (ilog2 n 1 - 52) (- 1074) < 0" by simp
    with False show ?thesis by (simp add: b64_int_def b64_def Let_def round_div_1)
  qed
qed

lemma dbl_exact: "\<bar>n\<bar> < 2 ^ 53 \<Longrightarrow> dbl n = Finite n"
  using b64_int_exact[of "\<bar>n\<bar>"] by (simp add: dbl_def)

lemma digit_val_range: "is_digit c \<Longrightarrow> 0 \<le> digit_val c \<and> digit_val c \<le> 9"
  by (auto simp: is_digit_def digit_val_def)

lemma foldl_digits_nonneg:
  "0 \<le> a \<Longrightarrow> \<forall>c\<in>set z. is_digit c \<Longrightarrow> 0 \<le> foldl (\<lambda>a c. 10 * a + digit_val c) a z"
proof (induction z arbitrary: a)
  case Nil
  then show ?case by simp
next
  case (Cons c z)
  from Cons.prems have "0 \<le> 10 * a + digit_val c" using digit_val_range[of c] by simp
  with Cons show ?case by simp
qed

lemma digits_val_nonneg: "\<forall>c\<in>set z. is_digit c \<Longrightarrow> 0 \<le> digits_val z"
  unfolding digits_val_def by (rule foldl_digits_nonneg) simp_all

lemma digit_not_ws: "is_digit c \<Longrightarrow> \<not> is_ws c \<and> c \<noteq> CHR ''-'' \<and> c \<noteq> CHR ''+''"
  by (auto simp: is_digit_def is_ws_def)

text \<open>
  On a string of decimal digits that denotes a number below \<open>2 ^ 53\<close>, \<^verbatim>\<open>parseInt\<close>
  gives that number.
\<close>

lemma parseInt10_exact:
  assumes "z \<noteq> []" and "\<forall>c\<in>set z. is_digit c" and "digits_val z < 2 ^ 53"
  shows "parseInt10 z = Finite (digits_val z)"
proof -
  from assms(1) obtain c r where z: "z = c # r" by (cases z) auto
  with assms(2) have c: "is_digit c" by simp
  have t: "dropWhile is_ws z = z" using z digit_not_ws[OF c] by simp
  have u: "takeWhile is_digit z = z" using assms(2) by (simp add: takeWhile_eq_all_conv)
  have "b64_int (digits_val z) = Some (digits_val z)"
    using digits_val_nonneg[OF assms(2)] assms(3) by (rule b64_int_exact)
  then show ?thesis
    using assms(1) digit_not_ws[OF c] u unfolding parseInt10_def t by (simp add: z Let_def)
qed

lemma parseInt10_empty: "parseInt10 [] = NotANumber"
  by (simp add: parseInt10_def)

subsection \<open>Numeric fields of the admin mutations\<close>

lemma or_zero_to_number: "or_zero (to_number s2n v) = spec_number s2n v"
  by (cases v) (auto simp: or_zero_def split: jsnum.splits)

lemma threshold_of_spec: "threshold_of v = spec_threshold v"
proof (cases v)
  case (JStr x)
  show ?thesis
  proof (cases "x = []")
    case True
    with JStr show ?thesis by (simp add: threshold_of_def num_or_zero_def parseInt10_empty)
  next
    case False
    with JStr show ?thesis
      by (cases "parseInt10 x") (simp_all add: threshold_of_def num_or_zero_def)
  qed
next
  case (JBool b)
  then show ?thesis by (cases b) (simp_all add: threshold_of_def num_or_zero_def)
qed (simp_all add: threshold_of_def num_or_zero_def)

lemma spec_threshold_range:
  "(\<exists>n. spec_threshold v = Finite n \<and> 0 \<le> n) \<or> spec_threshold v = PosInf"
proof (cases v)
  case (JStr x)
  then show ?thesis by (cases "parseInt10 x") simp_all
qed simp_all

lemma post_candidates_app_target:
  assumes "post_candidates_app s2n f s b = (s', Json i)"
  shows "\<exists>c. candidates s' = candidates s @ [c] \<and> c_id c = i
             \<and> c_target c = spec_number s2n (cb_target b)"
  using assms
  by (auto simp: post_candidates_app_def or_zero_to_number Let_def split: option.splits)

lemma put_candidates_app_target:
  assumes "put_candidates_app s2n f s k b = (s', Json n)" and "c \<in> set (candidates s')"
    and "id_is k (c_id c)"
  shows "c_target c = spec_number s2n (cb_target b)"
proof (cases "cb_name b")
  case (Val name)
  with assms(1) have "candidates s' = map (\<lambda>c. if id_is k (c_id c)
                              then c\<lparr>c_name := name, c_district_id := int_or_null (cb_district_id b),
                                     c_target := or_zero (to_number s2n (cb_target b))\<rparr>
                              else c) (candidates s)"
    by (auto simp: put_candidates_app_def split: option.splits)
  with assms(2,3) show ?thesis by (auto simp: or_zero_to_number split: if_splits)
next
  case Absent
  with assms(1) have "s' = s" "filter (\<lambda>c. id_is k (c_id c)) (candidates s) = []"
    by (auto simp: put_candidates_app_def split: option.splits if_splits)
  with assms(2,3) show ?thesis by (auto simp: filter_empty_conv)
next
  case Null
  with assms(1) have "s' = s" "filter (\<lambda>c. id_is k (c_id c)) (candidates s) = []"
    by (auto simp: put_candidates_app_def split: option.splits if_splits)
  with assms(2,3) show ?thesis by (auto simp: filter_empty_conv)
qed

lemma post_districts_app_official:
  assumes "post_districts_app s2n f s b = (s', Json i)"
  shows "\<exists>d. districts s' = districts s @ [d] \<and> d_id d = i
             \<and> d_official_voters d = spec_number s2n (di_official_voters b)"
  using assms
  by (auto simp: post_districts_app_def or_zero_to_number Let_def split: option.splits)

lemma put_districts_app_official:
  assumes "put_districts_app s2n f s k b = (s', Json n)" and "d \<in> set (districts s')"
    and "id_is k (d_id d)"
  shows "d_official_voters d = spec_number s2n (di_official_voters b)"
proof (cases "di_name b")
  case (Val name)
  with assms(1) have "districts s' = map (\<lambda>d. if id_is k (d_id d)
                              then d\<lparr>d_governorate_id := int_or_null (di_governorate_id b),
                                     d_name := name,
                                     d_official_voters := or_zero (to_number s2n (di_official_voters b))\<rparr>
                              else d) (districts s)"
    by (auto simp: put_districts_app_def split: option.splits)
  with assms(2,3) show ?thesis by (auto simp: or_zero_to_number split: if_splits)
next
  case Absent
  with assms(1) have "s' = s" "filter (\<lambda>d. id_is k (d_id d)) (districts s) = []"
    by (auto simp: put_districts_app_def split: option.splits if_splits)
  with assms(2,3) show ?thesis by (auto simp: filter_empty_conv)
next
  case Null
  with assms(1) have "s' = s" "filter (\<lambda>d. id_is k (d_id d)) (districts s) = []"
    by (auto simp: put_districts_app_def split: option.splits if_splits)
  with assms(2,3) show ?thesis by (auto simp: filter_empty_conv)
qed

lemma post_party_progress_srv_threshold:
  assumes "post_party_progress_srv f s v = (s', Json u)"
  shows "s' = s\<lparr>party_row := map_option (\<lambda>p. p\<lparr>p_threshold := spec_threshold v\<rparr>) (party_row s)\<rparr>"
  using assms by (auto simp: post_party_progress_srv_def threshold_of_spec split: option.splits)

text \<open>
  Thresholds of the authenticated server: a negative number, strings with and without
  leading digits, a run of 20 digits, which is rounded to binary64, and a run of 310
  digits, which is beyond the range.
\<close>

lemma threshold_of_examples:
  "threshold_of (JNum (- 5)) = Finite 0
   \<and> threshold_of (JNum 7) = Finite 7
   \<and> threshold_of (JStr ''12 units'') = Finite 12
   \<and> threshold_of (JStr ''-7'') = Finite 0
   \<and> threshold_of (JStr ''abc'') = Finite 0
   \<and> threshold_of JUndefined = Finite 0
   \<and> threshold_of (JStr ''99999999999999999999'') = Finite 100000000000000000000
   \<and> threshold_of (JStr (CHR ''1'' # replicate 309 (CHR ''0''))) = PosInf"
  by code_simp

text \<open>
  \<^verbatim>\<open>PUT /api/party\<close> of \<^verbatim>\<open>server/app.js\<close> writes the threshold as \<^verbatim>\<open>+x || 0\<close>,
  without the \<^verbatim>\<open>Math.max(0, ...)\<close> of the authenticated server: -5 is stored as -5
  by the one and as 0 by the other.
\<close>

lemma put_party_app_unclamped:
  "map_option p_threshold
     (party_row (fst (put_party_app (\<lambda>x. NaN) None db_party
        \<lparr>pb_name = Val ''Party'', pb_threshold = JNum (- 5), pb_start_date = Absent,
          pb_end_date = Absent\<rparr>))) = Some (Finite (- 5))
   \<and> map_option p_threshold
       (party_row (fst (post_party_progress_srv None db_party (JNum (- 5))))) = Some (Finite 0)"
  by code_simp

text \<open>
  C5, as the claim has it, fails: \<^verbatim>\<open>POST /api/candidates\<close> with the target -5
  stores -5, which is not a non-negative integer.
\<close>

theorem C5_counterexample:
  "post_candidates_app (\<lambda>x. NaN) None db_empty body_negative_target
     = (db_empty\<lparr>candidates := [\<lparr>c_id = 1, c_name = ''Zed'', c_district_id = None, c_target = - 5\<rparr>],
                 seq_candidates := 1\<rparr>, Json 1)
   \<and> \<not> (0::int) \<le> - 5"
  by (simp add: post_candidates_app_def body_negative_target_def db_empty_def fresh_id_def
        or_zero_def Let_def)

text \<open>
  C5, amended. The numeric field of a body is missing, \<^verbatim>\<open>null\<close>, a boolean, a whole
  number of the 32-bit range, or a string. In every create or update of a candidate or
  a district of \<^verbatim>\<open>server/app.js\<close> that the store accepts, the value written to
  \<^verbatim>\<open>target\<close> or \<^verbatim>\<open>official_voters\<close> is \<open>spec_number\<close>: 0 for a missing field,
  \<^verbatim>\<open>null\<close>, \<^verbatim>\<open>false\<close> and a string that converts to no number, 1 for \<^verbatim>\<open>true\<close>, and
  otherwise the number given, or the whole number the string converts to, a negative
  one included. A create appends one row that holds it; an update writes it to every
  row with the id. The threshold that \<^verbatim>\<open>POST /api/party-progress\<close> of the
  authenticated server writes to the party row, leaving the rest of the store as it
  is, is \<open>spec_threshold\<close>: a number that is not negative is stored as it is and a
  negative one as 0; a string is stored as the number its leading digits denote
  (rounded to binary64, so \<^verbatim>\<open>Infinity\<close> for a run of digits beyond the range), and as
  0 when it has none or a minus sign before them; everything else is stored as 0. The
  threshold stored is a whole number that is not negative, or \<^verbatim>\<open>Infinity\<close>.
\<close>

theorem C5_numeric_fields:
  "(post_candidates_app s2n f s cb = (s1, Json i) \<longrightarrow>
      (\<exists>c. candidates s1 = candidates s @ [c] \<and> c_id c = i
           \<and> c_target c = spec_number s2n (cb_target cb)))
   \<and> (put_candidates_app s2n f s k cb = (s2, Json n) \<longrightarrow>
      (\<forall>c\<in>set (candidates s2). id_is k (c_id c) \<longrightarrow>
           c_target c = spec_number s2n (cb_target cb)))
   \<and> (post_districts_app s2n f s di = (s3, Json j) \<longrightarrow>
      (\<exists>d. districts s3 = districts s @ [d] \<and> d_id d = j
           \<and> d_official_voters d = spec_number s2n (di_official_voters di)))
   \<and> (put_districts_app s2n f s k di = (s4, Json m) \<longrightarrow>
      (\<forall>d\<in>set (districts s4). id_is k (d_id d) \<longrightarrow>
           d_official_voters d = spec_number s2n (di_official_voters di)))
   \<and> (post_party_progress_srv f s v = (s6, Json u) \<longrightarrow>
      s6 = s\<lparr>party_row := map_option (\<lambda>p. p\<lparr>p_threshold := spec_threshold v\<rparr>) (party_row s)\<rparr>
      \<and> ((\<exists>t. spec_threshold v = Finite t \<and> 0 \<le> t) \<or> spec_threshold v = PosInf))"
proof (intro conjI impI ballI)
  assume "post_candidates_app s2n f s cb = (s1, Json i)"
  then show "\<exists>c. candidates s1 = candidates s @ [c] \<and> c_id c = i
           \<and> c_target c = spec_number s2n (cb_target cb)"
    by (rule post_candidates_app_target)
next
  fix c
  assume "put_candidates_app s2n f s k cb = (s2, Json n)" "c \<in> set (candidates s2)"
    "id_is k (c_id c)"
  then show "c_target c = spec_number s2n (cb_target cb)"
    by (rule put_candidates_app_target)
next
  assume "post_districts_app s2n f s di = (s3, Json j)"
  then show "\<exists>d. districts s3 = districts s @ [d] \<and> d_id d = j
           \<and> d_official_voters d = spec_number s2n (di_official_voters di)"
    by (rule post_districts_app_official)
next
  fix d
  assume "put_districts_app s2n f s k di = (s4, Json m)" "d \<in> set (districts s4)"
    "id_is k (d_id d)"
  then show "d_official_voters d = spec_number s2n (di_official_voters di)"
    by (rule put_districts_app_official)
next
  assume "post_party_progress_srv f s v = (s6, Json u)"
  then show "s6 = s\<lparr>party_row := map_option (\<lambda>p. p\<lparr>p_threshold := spec_threshold v\<rparr>) (party_row s)\<rparr>"
    by (rule post_party_progress_srv_threshold)
next
  show "(\<exists>t. spec_threshold v = Finite t \<and> 0 \<le> t) \<or> spec_threshold v = PosInf"
    by (rule spec_threshold_range)
qed

theorem C5_numeric_fields_witness:
  "(\<exists>c. candidates (fst (post_candidates_app (\<lambda>x. NaN) None db_party body_text_target))
            = candidates db_party @ [c] \<and> c_id c = 4 \<and> c_target c = 0)
   \<and> c_target (hd (candidates
         (fst (put_candidates_app (\<lambda>x. NaN) None db_party (Num 1) body_text_target)))) = 0
   \<and> (\<exists>d. districts (fst (post_districts_app (\<lambda>x. NaN) None db_party body_negative_official))
            = districts db_party @ [d] \<and> d_id d = 3 \<and> d_official_voters d = - 7)
   \<and> d_official_voters (hd (districts
         (fst (put_districts_app (\<lambda>x. NaN) None db_party (Num 1) body_negative_official)))) = - 7
   \<and> map_option p_threshold
       (party_row (fst (post_party_progress_srv None db_party (JStr ''12 units''))))
       = Some (Finite 12)"
proof -
  let ?r1 = "post_candidates_app (\<lambda>x. NaN) None db_party body_text_target"
  let ?r2 = "put_candidates_app (\<lambda>x. NaN) None db_party (Num 1) body_text_target"
  let ?r3 = "post_districts_app (\<lambda>x. NaN) None db_party body_negative_official"
  let ?r4 = "put_districts_app (\<lambda>x. NaN) None db_party (Num 1) body_negative_official"
  let ?r6 = "post_party_progress_srv None db_party (JStr ''12 units'')"
  have e1: "?r1 = (fst ?r1, Json 4)" by code_simp
  have e2: "?r2 = (fst ?r2, Json 1)" by code_simp
  have e3: "?r3 = (fst ?r3, Json 3)" by code_simp
  have e4: "?r4 = (fst ?r4, Json 1)" by code_simp
  have e6: "?r6 = (fst ?r6, Json ())" by code_simp
  have h2: "hd (candidates (fst ?r2)) \<in> set (candidates (fst ?r2))
            \<and> id_is (Num 1) (c_id (hd (candidates (fst ?r2))))" by code_simp
  have h4: "hd (districts (fst ?r4)) \<in> set (districts (fst ?r4))
            \<and> id_is (Num 1) (d_id (hd (districts (fst ?r4))))" by code_simp
  have v1: "spec_number (\<lambda>x. NaN) (cb_target body_text_target) = 0"
    by (simp add: body_text_target_def)
  have v3: "spec_number (\<lambda>x. NaN) (di_official_voters body_negative_official) = - 7"
    by (simp add: body_negative_official_def)
  have v6: "spec_threshold (JStr ''12 units'') = Finite 12" by code_simp
  have p: "party_row db_party \<noteq> None" by (simp add: db_party_def)
  note T = C5_numeric_fields [where ?s2n = "\<lambda>x. NaN" and f = None and s = db_party
      and cb = body_text_target and ?s1.0 = "fst ?r1" and i = 4
      and k = "Num 1" and ?s2.0 = "fst ?r2" and n = 1
      and di = body_negative_official and ?s3.0 = "fst ?r3" and j = 3
      and ?s4.0 = "fst ?r4" and m = 1
      and v = "JStr ''12 units''" and ?s6.0 = "fst ?r6" and u = "()"]
  from T e1 have a1: "\<exists>c. candidates (fst ?r1) = candidates db_party @ [c] \<and> c_id c = 4
           \<and> c_target c = spec_number (\<lambda>x. NaN) (cb_target body_text_target)"
    by blast
  from T e2 h2 have a2: "c_target (hd (candidates (fst ?r2)))
           = spec_number (\<lambda>x. NaN) (cb_target body_text_target)"
    by blast
  from T e3 have a3: "\<exists>d. districts (fst ?r3) = districts db_party @ [d] \<and> d_id d = 3
           \<and> d_official_voters d = spec_number (\<lambda>x. NaN) (di_official_voters body_negative_official)"
    by blast
  from T e4 h4 have a4: "d_official_voters (hd (districts (fst ?r4)))
           = spec_number (\<lambda>x. NaN) (di_official_voters body_negative_official)"
    by blast
  from T e6 have "fst ?r6 = db_party\<lparr>party_row :=
        map_option (\<lambda>p. p\<lparr>p_threshold := spec_threshold (JStr ''12 units'')\<rparr>) (party_row db_party)\<rparr>"
    by blast
  then have a6: "map_option p_threshold (party_row (fst ?r6)) = Some (Finite 12)"
    using p v6 by (auto simp del: spec_threshold.simps)
  from a1 a2 a3 a4 a6 show ?thesis unfolding v1 v3 by blast
qed

subsection \<open>Paging of the admin voter listing\<close>

lemma parseInt10_abc: "parseInt10 ''abc'' = NotANumber"
  by (simp add: parseInt10_def is_ws_def is_digit_def Let_def)

lemma size_of_range: "size_of q = Finite z \<Longrightarrow> 5 \<le> z \<and> z \<le> 50"
  by (cases "parseInt10 (or_str q ''20'')") (auto simp: size_of_def)

lemma size_of_cases: "size_of q = NotANumber \<or> (\<exists>z. size_of q = Finite z)"
  by (cases "parseInt10 (or_str q ''20'')") (auto simp: size_of_def)

lemma page_of_range: "page_of q = Finite p \<Longrightarrow> 1 \<le> p"
  by (cases "parseInt10 (or_str q ''1'')") (auto simp: page_of_def)

lemma dbl_sign: "0 < n \<Longrightarrow> dbl n \<noteq> NegInf \<and> dbl n \<noteq> NotANumber"
  by (auto simp: dbl_def split: option.splits)

lemma offset_of_Finite:
  assumes "offset_of page (Finite z) = Finite off" and "5 \<le> z"
  shows "\<exists>p. page = Finite p"
proof (cases page)
  case PosInf
  with assms show ?thesis by (simp add: offset_of_def)
next
  case NegInf
  with assms show ?thesis by (simp add: offset_of_def)
next
  case NotANumber
  with assms show ?thesis by (simp add: offset_of_def)
qed simp

lemma admin_voters_at_most_50:
  assumes "admin_voters_srv like f s q_search q_page q_size = Json pg"
  shows "length (vp_items pg) \<le> 50 \<and> (\<exists>z. vp_size pg = Finite z \<and> 5 \<le> z \<and> z \<le> 50)
         \<and> (\<exists>p. vp_page pg = Finite p \<and> 1 \<le> p)"
proof -
  from assms obtain z off where z: "size_of q_size = Finite z"
    and o: "offset_of (page_of q_page) (size_of q_size) = Finite off"
    by (auto simp: admin_voters_srv_def Let_def split: option.splits num64.splits if_splits)
  from size_of_range[OF z] have r: "5 \<le> z" "z \<le> 50" by auto
  from o z r obtain p where p: "page_of q_page = Finite p"
    using offset_of_Finite[of "page_of q_page" z off] by auto
  from assms z o p r page_of_range[OF p] show ?thesis
    by (auto simp: admin_voters_srv_def Let_def sql_limit_def split: option.splits if_splits)
qed

text \<open>
  A page number beyond the offsets that SQLite takes is refused in the same way: the
  offset \<open>(page - 1) * size\<close> is bound as a \<^verbatim>\<open>REAL\<close> of \<open>2 ^ 63\<close> or more.
\<close>

lemma admin_voters_huge_page:
  "page_of (Some ''99999999999999999999'') = Finite 100000000000000000000
   \<and> admin_voters_srv (\<lambda>p x. True) None db_two None (Some ''99999999999999999999'') None
       = Err 500 ''SQLITE_MISMATCH: datatype mismatch''"
  by code_simp

text \<open>
  C10 fails for a page size that is no number: \<^verbatim>\<open>parseInt\<close> gives \<open>NaN\<close>, which
  \<^verbatim>\<open>Math.max\<close> and \<^verbatim>\<open>Math.min\<close> hand on, so the size is \<open>NaN\<close> and not a
  number between 5 and 50; the same holds for the page. The query is then refused and
  the answer is 500. Whenever the size is a number it lies between 5 and 50, and an
  answer that carries rows carries at most 50 (\<open>size_of_range\<close>,
  \<open>admin_voters_at_most_50\<close>).
\<close>

theorem C10_size_not_clamped:
  "size_of (Some ''abc'') = NotANumber \<and> page_of (Some ''abc'') = NotANumber
   \<and> admin_voters_srv like None db_two None None (Some ''abc'')
       = Err 500 ''SQLITE_MISMATCH: datatype mismatch''"
  by (simp add: size_of_def page_of_def or_str_def parseInt10_abc admin_voters_srv_def
        offset_of_def Let_def)


end
